theory Spec2Isabelle
  imports Main "HOL-Library.Sublist" "HOL-Library.Product_Lexorder" "HOL-Library.Multiset"
begin

section \<open>The chat webview bridge of the VS Code client (clients/vscode/src/chat/webview.ts)\<close>

text \<open>
  The class \<open>ChatWebview\<close> keeps a client handle, a queue of pending actions and a
  session-state map, and registers the callbacks the chat panel may call
  (\<open>lookupSymbol\<close>, \<open>listSymbols\<close>, \<open>getChanges\<close>, \<open>fetchSessionState\<close>,
  \<open>storeSessionState\<close>, ...). Each part is embedded below as HOL functions over explicit
  state; the collaborators of the host (document, definition provider, symbol providers,
  git provider) are parameters. JavaScript strings are modelled as \<open>string\<close>, which is
  exact for ASCII text.
\<close>

subsection \<open>Plain JavaScript objects used as dictionaries\<close>

text \<open>
  \<open>Record<string, unknown>\<close> values are plain objects: their own enumerable properties
  are a map, and their prototype is \<open>Object.prototype\<close>. The operator \<open>key in obj\<close>
  and the read \<open>obj[key]\<close> follow the prototype chain; the write \<open>obj[key] = v\<close>
  creates an own property, except for the key \<open>__proto__\<close>, whose inherited setter
  changes the prototype and creates nothing.
\<close>

datatype jsvalue =
    JNull
  | JNum int
  | JStr string
  | ObjectPrototypeMember string

type_synonym jsobject = "string \<rightharpoonup> jsvalue"

definition object_prototype_names :: "string list" where
  "object_prototype_names =
     [''constructor'', ''__defineGetter__'', ''__defineSetter__'', ''hasOwnProperty'',
      ''__lookupGetter__'', ''__lookupSetter__'', ''isPrototypeOf'', ''propertyIsEnumerable'',
      ''toString'', ''valueOf'', ''__proto__'', ''toLocaleString'']"

definition js_in :: "string \<Rightarrow> jsobject \<Rightarrow> bool" where
  "js_in key obj = (obj key \<noteq> None \<or> key \<in> set object_prototype_names)"

definition js_get :: "jsobject \<Rightarrow> string \<Rightarrow> jsvalue" where
  "js_get obj key =
     (case obj key of
        Some v \<Rightarrow> v
      | None \<Rightarrow> ObjectPrototypeMember key)"

definition js_assign :: "jsobject \<Rightarrow> string \<Rightarrow> jsvalue \<Rightarrow> jsobject" where
  "js_assign obj key v = (if key = ''__proto__'' then obj else obj(key \<mapsto> v))"

subsection \<open>The state of a \<open>ChatWebview\<close>\<close>

record ServerConfig =
  endpoint :: string
  token :: string

text \<open>
  The handle \<open>ServerApiList\<close> is an object keyed by version strings; the value under
  a key is the remote proxy of that version's API. The model keeps the own keys, in
  \<open>Object.keys\<close> order. Calls that reach the panel and the messages of
  \<open>logger.info\<close> are recorded, in order, in one trace.
\<close>

type_synonym ServerApiList = "string list"

record EditorContext =
  kind :: string
  payload :: string

datatype PanelCall =
    Init string bool
  | UpdateActiveSelection "EditorContext option"
  | AddRelevantContext EditorContext
  | ExecuteCommand string
  | Navigate string

datatype LogArg = ArgContext EditorContext | ArgCommand string

datatype Event =
    Info string LogArg
  | Call string PanelCall
  | PostMessage string

text \<open>A pending action is a closure over the arguments of the call that queued it.\<close>

datatype PendingAction =
    PendingActiveSelection EditorContext
  | PendingRelevantContext EditorContext
  | PendingCommand string

datatype error = TypeError | Rejected

record ChatWebview =
  client :: "ServerApiList option"
  currentConfig :: "ServerConfig option"
  pendingActions :: "PendingAction list"
  sessionStateMap :: "string \<rightharpoonup> jsobject"
  trace :: "Event list"

subsection \<open>Capability client and pending actions\<close>

text \<open>
  \<open>semver.valid\<close> (an external library) and \<open>isCompatible\<close> (of \<open>./utils\<close>) are
  parameters of the two capability functions.
\<close>

text \<open>\<open>Object.keys(this.client ?? {}).filter((key) => semver.valid(key))\<close>\<close>

definition getApiVersions :: "(string \<Rightarrow> bool) \<Rightarrow> ChatWebview \<Rightarrow> string list" where
  "getApiVersions valid w = filter valid (case client w of None \<Rightarrow> [] | Some c \<Rightarrow> c)"

definition isTerminalContextEnabled ::
  "(string \<Rightarrow> bool) \<Rightarrow> (string \<Rightarrow> string \<Rightarrow> bool) \<Rightarrow> ChatWebview \<Rightarrow> bool" where
  "isTerminalContextEnabled valid isCompatible w =
     list_ex (\<lambda>version. isCompatible version ''0.10.0'') (getApiVersions valid w)"

text \<open>
  \<open>c[version].op(args)\<close> throws a \<open>TypeError\<close> when the key is missing;
  \<open>c[version]?.op(args)\<close> does nothing then. An operation that throws (or, for an
  \<open>async\<close> operation, rejects) returns the error alone.
\<close>

definition required_call :: "ServerApiList \<Rightarrow> string \<Rightarrow> PanelCall \<Rightarrow> error + Event list" where
  "required_call c version call =
     (if version \<in> set c then Inr [Call version call] else Inl TypeError)"

definition optional_call :: "ServerApiList \<Rightarrow> string \<Rightarrow> PanelCall \<Rightarrow> Event list" where
  "optional_call c version call = (if version \<in> set c then [Call version call] else [])"

definition emit :: "ChatWebview \<Rightarrow> Event list \<Rightarrow> ChatWebview" where
  "emit w evs = w\<lparr>trace := trace w @ evs\<rparr>"

definition push_pending :: "ChatWebview \<Rightarrow> PendingAction \<Rightarrow> ChatWebview" where
  "push_pending w fn = w\<lparr>pendingActions := pendingActions w @ [fn]\<rparr>"

definition setActiveSelection :: "ChatWebview \<Rightarrow> EditorContext \<Rightarrow> error + ChatWebview" where
  "setActiveSelection w selection =
     (case client w of
        Some c \<Rightarrow>
          (case required_call c ''0.8.0'' (UpdateActiveSelection (Some selection)) of
             Inl e \<Rightarrow> Inl e
           | Inr evs \<Rightarrow> Inr (emit w (Info ''Set active selection'' (ArgContext selection) # evs)))
      | None \<Rightarrow> Inr (push_pending w (PendingActiveSelection selection)))"

definition addRelevantContext :: "ChatWebview \<Rightarrow> EditorContext \<Rightarrow> error + ChatWebview" where
  "addRelevantContext w context =
     (case client w of
        Some c \<Rightarrow>
          (if kind context = ''terminal''
           then Inr (emit w (Info ''Adding relevant context'' (ArgContext context)
                             # optional_call c ''0.10.0'' (AddRelevantContext context)))
           else (case required_call c ''0.8.0'' (AddRelevantContext context) of
                   Inl e \<Rightarrow> Inl e
                 | Inr evs \<Rightarrow>
                     Inr (emit w (Info ''Adding relevant context'' (ArgContext context) # evs))))
      | None \<Rightarrow> Inr (push_pending w (PendingRelevantContext context)))"

definition executeCommand :: "ChatWebview \<Rightarrow> string \<Rightarrow> error + ChatWebview" where
  "executeCommand w command =
     (case client w of
        Some c \<Rightarrow>
          (if command = ''explain-terminal''
           then Inr (emit w (Info ''Executing command'' (ArgCommand command)
                             # optional_call c ''0.10.0'' (ExecuteCommand command)))
           else (case required_call c ''0.8.0'' (ExecuteCommand command) of
                   Inl e \<Rightarrow> Inl e
                 | Inr evs \<Rightarrow>
                     Inr (emit w (Info ''Executing command'' (ArgCommand command) # evs))))
      | None \<Rightarrow> Inr (push_pending w (PendingCommand command)))"

text \<open>
  The body of a pending closure reads \<open>this.client\<close> when it runs:
  \<open>await this.client?.["0.8.0"].op(args)\<close>. A \<open>TypeError\<close> there rejects the
  promise of the closure, which \<open>forEach\<close> drops, so nothing reaches the panel.
\<close>

definition pending_required :: "ChatWebview \<Rightarrow> string \<Rightarrow> PanelCall \<Rightarrow> Event list" where
  "pending_required w version call =
     (case client w of
        None \<Rightarrow> []
      | Some c \<Rightarrow> (case required_call c version call of Inl e \<Rightarrow> [] | Inr evs \<Rightarrow> evs))"

definition pending_optional :: "ChatWebview \<Rightarrow> string \<Rightarrow> PanelCall \<Rightarrow> Event list" where
  "pending_optional w version call =
     (case client w of None \<Rightarrow> [] | Some c \<Rightarrow> optional_call c version call)"

fun run_pending :: "ChatWebview \<Rightarrow> PendingAction \<Rightarrow> ChatWebview" where
  "run_pending w (PendingActiveSelection selection) =
     emit w (Info ''Set pending active selection'' (ArgContext selection)
             # pending_required w ''0.8.0'' (UpdateActiveSelection (Some selection)))"
| "run_pending w (PendingRelevantContext context) =
     emit w (Info ''Adding pending relevant context'' (ArgContext context)
             # (if kind context = ''terminal''
                then pending_optional w ''0.10.0'' (AddRelevantContext context)
                else pending_required w ''0.8.0'' (AddRelevantContext context)))"
| "run_pending w (PendingCommand command) =
     emit w (Info ''Executing pending command'' (ArgCommand command)
             # (if command = ''explain-terminal''
                then pending_optional w ''0.10.0'' (ExecuteCommand command)
                else pending_required w ''0.8.0'' (ExecuteCommand command)))"

text \<open>
  \<open>initChatPanel\<close> from the point where \<open>createChatPanelApiClient\<close> has resolved to
  the handle \<open>c\<close>: set the handle, run every pending action
  (\<open>this.pendingActions.forEach\<close>), clear the queue, call \<open>init\<close> and post
  \<open>showChatPanel\<close>. The state is returned together with the error that rejects the
  promise of \<open>initChatPanel\<close>, if any.
\<close>

definition initChatPanel :: "bool \<Rightarrow> ChatWebview \<Rightarrow> ServerApiList \<Rightarrow> ChatWebview \<times> error option" where
  "initChatPanel isMac w c =
     (let w1 = w\<lparr>client := Some c\<rparr>;
          w2 = foldl run_pending w1 (pendingActions w1);
          w3 = w2\<lparr>pendingActions := []\<rparr>;
          authorization = (case currentConfig w3 of None \<Rightarrow> [] | Some cfg \<Rightarrow> token cfg)
      in case required_call c ''0.8.0'' (Init authorization isMac) of
           Inl e \<Rightarrow> (w3, Some e)
         | Inr evs \<Rightarrow> (emit w3 (evs @ [PostMessage ''showChatPanel'']), None))"

text \<open>\<open>loadChatPanel\<close> and \<open>loadErrorPage\<close> drop the handle before a (re)load.\<close>

definition dropClient :: "ChatWebview \<Rightarrow> ChatWebview" where
  "dropClient w = w\<lparr>client := None\<rparr>"

subsection \<open>Session state store\<close>

text \<open>\<open>this.currentConfig?.endpoint ?? ""\<close>\<close>

definition sessionStateKey :: "ChatWebview \<Rightarrow> string" where
  "sessionStateKey w = (case currentConfig w of None \<Rightarrow> [] | Some c \<Rightarrow> endpoint c)"

text \<open>\<open>this.sessionStateMap.get(sessionStateKey) ?? {}\<close>\<close>

definition sessionStateOf :: "ChatWebview \<Rightarrow> jsobject" where
  "sessionStateOf w =
     (case sessionStateMap w (sessionStateKey w) of None \<Rightarrow> Map.empty | Some s \<Rightarrow> s)"

text \<open>The loop \<open>for (const key of keys) if (key in sessionState) filtered[key] = sessionState[key]\<close>.\<close>

fun filterKeys :: "jsobject \<Rightarrow> string list \<Rightarrow> jsobject \<Rightarrow> jsobject" where
  "filterKeys sessionState [] filtered = filtered"
| "filterKeys sessionState (key # keys) filtered =
     filterKeys sessionState keys
       (if js_in key sessionState then js_assign filtered key (js_get sessionState key)
        else filtered)"

definition fetchSessionState :: "ChatWebview \<Rightarrow> string list option \<Rightarrow> jsobject" where
  "fetchSessionState w keys =
     (let sessionState = sessionStateOf w in
      case keys of
        None \<Rightarrow> sessionState
      | Some ks \<Rightarrow> filterKeys sessionState ks Map.empty)"

text \<open>\<open>this.sessionStateMap.set(sessionStateKey, {...sessionState, ...state})\<close>\<close>

definition storeSessionState :: "ChatWebview \<Rightarrow> jsobject \<Rightarrow> ChatWebview" where
  "storeSessionState w state =
     w\<lparr>sessionStateMap := (sessionStateMap w)(sessionStateKey w \<mapsto> sessionStateOf w ++ state)\<rparr>"

subsection \<open>Change collection\<close>










subsection \<open>Strings\<close>

text \<open>
  \<open>s.toLowerCase()\<close> on ASCII text: the letters \<open>A\<close> to \<open>Z\<close> are lowered. Cased
  letters outside ASCII are not covered by the model.
\<close>

definition lowerChar :: "char \<Rightarrow> char" where
  "lowerChar c =
     (case map_of (zip ''ABCDEFGHIJKLMNOPQRSTUVWXYZ'' ''abcdefghijklmnopqrstuvwxyz'') c of
        Some l \<Rightarrow> l
      | None \<Rightarrow> c)"

definition toLowerCase :: "string \<Rightarrow> string" where
  "toLowerCase s = map lowerChar s"

text \<open>\<open>s.includes(t)\<close> and \<open>s.startsWith(t)\<close>\<close>

definition includesStr :: "string \<Rightarrow> string \<Rightarrow> bool" where
  "includesStr s t = sublist t s"

definition startsWith :: "string \<Rightarrow> string \<Rightarrow> bool" where
  "startsWith s t = prefix t s"

text \<open>The decimal form of a non-negative integer, as a template literal prints it.\<close>

definition digitChar :: "nat \<Rightarrow> char" where
  "digitChar d = ''0123456789'' ! d"

function numberToString :: "nat \<Rightarrow> string" where
  "numberToString n =
     (if n < 10 then [digitChar n] else numberToString (n div 10) @ [digitChar (n mod 10)])"
  by pat_completeness auto
termination
  by (relation "measure (\<lambda>n. n)") auto

declare numberToString.simps [simp del]

subsection \<open>Symbol listing\<close>

record Position =
  line :: nat
  character :: nat

record Range =
  start :: Position
  end' :: Position

record LineRange =
  line_start :: nat
  line_end :: nat

record SymbolInformation =
  name :: string
  symbolKind :: nat
  containerName :: "string option"
  location_uri :: string
  location_range :: Range

datatype DocumentSymbol =
  DocumentSymbol (ds_name: string) (ds_kind: nat) (ds_detail: string) (ds_range: Range)
    (children: "DocumentSymbol list")

text \<open>
  What the command \<open>vscode.executeDocumentSymbolProvider\<close> delivers, typed
  \<open>DocumentSymbol[] | SymbolInformation[]\<close> in the source. An element is an object that
  is an instance of \<open>DocumentSymbol\<close> (\<open>DS\<close>), or an object that is not (\<open>SI\<close>): a
  \<open>SymbolInformation\<close>, or an object of a subclass of it that also carries the
  children of its symbol. The editor delivers the symbol tree of a document as objects
  of this second kind; a plain \<open>SymbolInformation\<close> has no children.
\<close>

datatype ProviderSymbol =
    DS DocumentSymbol
  | SI SymbolInformation (carried: "ProviderSymbol list")

record 'fp ListSymbolItem =
  filepath :: 'fp
  range :: LineRange
  label :: string

text \<open>
  The collaborators of \<open>listSymbols\<close>. A provider command may reject, resolve to
  \<open>undefined\<close> or resolve to a list. The converters of \<open>./utils\<close> and the string
  form of a \<open>Filepath\<close> in a template literal are parameters.
\<close>

record 'fp SymbolHost =
  activeTextEditor :: "string option"
  executeDocumentSymbolProvider :: "string \<Rightarrow> error + ProviderSymbol list option"
  executeWorkspaceSymbolProvider :: "string \<Rightarrow> error + SymbolInformation list option"
  localUriToChatPanelFilepath :: "string \<Rightarrow> 'fp"
  vscodeRangeToChatPanelLineRange :: "Range \<Rightarrow> LineRange"
  filepathToString :: "'fp \<Rightarrow> string"

text \<open>\<open>if (!limit || limit < 0) limit = 20\<close>\<close>

definition effectiveLimit :: "int option \<Rightarrow> int" where
  "effectiveLimit limit =
     (case limit of None \<Rightarrow> 20 | Some l \<Rightarrow> if l = 0 \<or> l < 0 then 20 else l)"

definition convertSymbol :: "string \<Rightarrow> DocumentSymbol \<Rightarrow> SymbolInformation" where
  "convertSymbol documentUri current =
     \<lparr>name = ds_name current, symbolKind = ds_kind current,
      containerName = Some (ds_detail current),
      location_uri = documentUri, location_range = ds_range current\<rparr>"

fun symbolSize :: "ProviderSymbol \<Rightarrow> nat" where
  "symbolSize (DS d) = size d"
| "symbolSize (SI s cs) = Suc (sum_list (map symbolSize cs))"

text \<open>
  The loop \<open>while (queue.length > 0 && result.length < limit)\<close> of
  \<open>getDocumentSymbols\<close>. Only in the branch \<open>current instanceof DocumentSymbol\<close> are
  the children of \<open>current\<close> pushed on the queue; the other branch pushes
  \<open>current\<close> on the result and reads no children.
\<close>

function bfsLoop ::
  "string \<Rightarrow> int \<Rightarrow> ProviderSymbol list \<Rightarrow> SymbolInformation list \<Rightarrow> SymbolInformation list" where
  "bfsLoop documentUri limit [] result = result"
| "bfsLoop documentUri limit (DS current # queue) result =
     (if int (length result) < limit then
        (let result' = result @ [convertSymbol documentUri current] in
         if int (length result') \<ge> limit then result'
         else bfsLoop documentUri limit (queue @ map DS (children current)) result')
      else result)"
| "bfsLoop documentUri limit (SI current cs # queue) result =
     (if int (length result) < limit then
        (let result' = result @ [current] in
         if int (length result') \<ge> limit then result'
         else bfsLoop documentUri limit queue result')
      else result)"
  by pat_completeness auto
termination
proof (relation "measure (\<lambda>(u, l, queue, r). sum_list (map symbolSize queue))", goal_cases)
  case 1
  show ?case by simp
next
  case (2 documentUri limit current queue result x)
  have "sum_list (map size (children current)) < size current"
    by (cases current) (simp add: size_list_conv_sum_list)
  then show ?case by (simp add: comp_def)
next
  case (3 documentUri limit current cs queue result x)
  show ?case by simp
qed

definition getDocumentSymbols ::
  "'fp SymbolHost \<Rightarrow> string \<Rightarrow> int \<Rightarrow> error + SymbolInformation list" where
  "getDocumentSymbols host documentUri limit =
     (case executeDocumentSymbolProvider host documentUri of
        Inl e \<Rightarrow> Inl e
      | Inr symbols \<Rightarrow>
          Inr (bfsLoop documentUri limit (case symbols of None \<Rightarrow> [] | Some ss \<Rightarrow> ss) []))"

definition symbolToItem :: "'fp SymbolHost \<Rightarrow> 'fp \<Rightarrow> SymbolInformation \<Rightarrow> 'fp ListSymbolItem" where
  "symbolToItem host fp symbol =
     \<lparr>filepath = fp,
      range = vscodeRangeToChatPanelLineRange host (location_range symbol),
      label = name symbol\<rparr>"

text \<open>\<open>getWorkspaceSymbols\<close>: a failure of the provider is caught and gives no items.\<close>

definition getWorkspaceSymbols :: "'fp SymbolHost \<Rightarrow> string \<Rightarrow> 'fp ListSymbolItem list" where
  "getWorkspaceSymbols host query =
     (case executeWorkspaceSymbolProvider host query of
        Inl e \<Rightarrow> []
      | Inr symbols \<Rightarrow>
          map (\<lambda>symbol. symbolToItem host (localUriToChatPanelFilepath host (location_uri symbol)) symbol)
            (case symbols of None \<Rightarrow> [] | Some ss \<Rightarrow> ss))"

definition filterSymbols :: "SymbolInformation list \<Rightarrow> string \<Rightarrow> SymbolInformation list" where
  "filterSymbols symbols query =
     (let lowerQuery = toLowerCase query in
      filter (\<lambda>s. includesStr (toLowerCase (name s)) lowerQuery \<or>
                  (case containerName s of
                     None \<Rightarrow> False
                   | Some cn \<Rightarrow> includesStr (toLowerCase cn) lowerQuery))
        symbols)"

text \<open>
  The key of \<open>mergeResults\<close>:
  \<open>`${item.filepath}-${item.label}-${item.range.start}-${item.range.end}`\<close>
\<close>

definition itemKey :: "('fp \<Rightarrow> string) \<Rightarrow> 'fp ListSymbolItem \<Rightarrow> string" where
  "itemKey fpString item =
     fpString (filepath item) @ ''-'' @ label item @ ''-'' @
     numberToString (line_start (range item)) @ ''-'' @ numberToString (line_end (range item))"

text \<open>The loop over \<open>allItems\<close> with the set \<open>seen\<close>.\<close>

fun uniqueLoop ::
  "('a \<Rightarrow> string) \<Rightarrow> 'a list \<Rightarrow> string set \<Rightarrow> 'a list \<Rightarrow> 'a list" where
  "uniqueLoop key [] seen uniqueItems = uniqueItems"
| "uniqueLoop key (item # allItems) seen uniqueItems =
     (if key item \<notin> seen then uniqueLoop key allItems (insert (key item) seen) (uniqueItems @ [item])
      else uniqueLoop key allItems seen uniqueItems)"

definition getMatchScore :: "string \<Rightarrow> string \<Rightarrow> int" where
  "getMatchScore query lbl =
     (let lowerLabel = toLowerCase lbl; lowerQuery = toLowerCase query in
      if lowerLabel = lowerQuery then 3
      else if startsWith lowerLabel lowerQuery then 2
      else if includesStr lowerLabel lowerQuery then 1
      else 0)"

text \<open>The comparator handed to \<open>uniqueItems.sort\<close>.\<close>

definition compareItems :: "string \<Rightarrow> 'fp ListSymbolItem \<Rightarrow> 'fp ListSymbolItem \<Rightarrow> int" where
  "compareItems query a b =
     (let scoreA = getMatchScore query (label a); scoreB = getMatchScore query (label b) in
      if scoreB \<noteq> scoreA then scoreB - scoreA
      else int (length (label a)) - int (length (label b)))"

text \<open>
  \<open>Array.prototype.sort\<close> with a comparator is a stable sort: an element goes before
  another when the comparator is negative, and elements that compare equal keep their
  order.
\<close>

fun insertSorted :: "('a \<Rightarrow> 'a \<Rightarrow> int) \<Rightarrow> 'a \<Rightarrow> 'a list \<Rightarrow> 'a list" where
  "insertSorted cmp x [] = [x]"
| "insertSorted cmp x (y # ys) =
     (if cmp x y \<le> 0 then x # y # ys else y # insertSorted cmp x ys)"

definition sortBy :: "('a \<Rightarrow> 'a \<Rightarrow> int) \<Rightarrow> 'a list \<Rightarrow> 'a list" where
  "sortBy cmp xs = foldr (insertSorted cmp) xs []"

definition mergeResults ::
  "('fp \<Rightarrow> string) \<Rightarrow> 'fp ListSymbolItem list \<Rightarrow> 'fp ListSymbolItem list \<Rightarrow> string \<Rightarrow> int \<Rightarrow>
   'fp ListSymbolItem list" where
  "mergeResults fpString local workspace query limit =
     (let allItems = local @ workspace;
          uniqueItems = uniqueLoop (itemKey fpString) allItems {} []
      in take (nat limit) (sortBy (compareItems query) uniqueItems))"

text \<open>
  \<open>listSymbols\<close> returns the items; the model also returns the provider commands it
  executed, in order.
\<close>

definition listSymbols ::
  "'fp SymbolHost \<Rightarrow> string \<Rightarrow> int option \<Rightarrow> 'fp ListSymbolItem list \<times> string list" where
  "listSymbols host query limit0 =
     (case activeTextEditor host of
        None \<Rightarrow> ([], [])
      | Some documentUri \<Rightarrow>
          (let limit = effectiveLimit limit0 in
           case getDocumentSymbols host documentUri limit of
             Inl e \<Rightarrow> ([], [''vscode.executeDocumentSymbolProvider''])
           | Inr defaultSymbols \<Rightarrow>
               (let fp = localUriToChatPanelFilepath host documentUri in
                if query = [] then
                  (map (symbolToItem host fp) (take (nat limit) defaultSymbols),
                   [''vscode.executeDocumentSymbolProvider''])
                else
                  (mergeResults (filepathToString host)
                     (map (symbolToItem host fp) (filterSymbols defaultSymbols query))
                     (getWorkspaceSymbols host query) query limit,
                   [''vscode.executeDocumentSymbolProvider'',
                    ''vscode.executeWorkspaceSymbolProvider'']))))"

subsection \<open>Text documents\<close>

text \<open>
  A \<open>TextDocument\<close> is its uri and its text, with line feeds as line ends. Positions
  and offsets follow the editor: a position is validated (clamped into the document)
  before use.
\<close>

record TextDocument =
  doc_uri :: string
  doc_text :: string

fun splitLines :: "string \<Rightarrow> string list" where
  "splitLines [] = [[]]"
| "splitLines (c # cs) =
     (if c = CHR 0x0A then [] # splitLines cs
      else (case splitLines cs of [] \<Rightarrow> [[c]] | l # ls \<Rightarrow> (c # l) # ls))"

definition lineCount :: "TextDocument \<Rightarrow> nat" where
  "lineCount document = length (splitLines (doc_text document))"

text \<open>The offset of the first character of line \<open>l\<close>.\<close>

definition lineOffset :: "string list \<Rightarrow> nat \<Rightarrow> nat" where
  "lineOffset lines l = sum_list (map (\<lambda>ln. length ln + 1) (take l lines))"

definition offsetAt :: "TextDocument \<Rightarrow> Position \<Rightarrow> nat" where
  "offsetAt document p =
     (let lines = splitLines (doc_text document) in
      if line p \<ge> length lines then length (doc_text document)
      else lineOffset lines (line p) + min (character p) (length (lines ! line p)))"

fun positionFrom :: "string list \<Rightarrow> nat \<Rightarrow> nat \<Rightarrow> Position" where
  "positionFrom [] l off = \<lparr>line = l, character = off\<rparr>"
| "positionFrom [ln] l off = \<lparr>line = l, character = min off (length ln)\<rparr>"
| "positionFrom (ln # rest) l off =
     (if off \<le> length ln then \<lparr>line = l, character = off\<rparr>
      else positionFrom rest (Suc l) (off - length ln - 1))"

definition positionAt :: "TextDocument \<Rightarrow> nat \<Rightarrow> Position" where
  "positionAt document offset = positionFrom (splitLines (doc_text document)) 0 offset"

definition positionLe :: "Position \<Rightarrow> Position \<Rightarrow> bool" where
  "positionLe p q = (line p < line q \<or> (line p = line q \<and> character p \<le> character q))"

text \<open>\<open>new Range(startLine, startCharacter, endLine, endCharacter)\<close> orders its ends.\<close>

definition newRange :: "nat \<Rightarrow> nat \<Rightarrow> nat \<Rightarrow> nat \<Rightarrow> Range" where
  "newRange sl sc el ec =
     (let p = \<lparr>line = sl, character = sc\<rparr>; q = \<lparr>line = el, character = ec\<rparr> in
      if positionLe p q then \<lparr>start = p, end' = q\<rparr> else \<lparr>start = q, end' = p\<rparr>)"

definition isEmpty :: "Range \<Rightarrow> bool" where
  "isEmpty r = (start r = end' r)"

definition getText :: "TextDocument \<Rightarrow> Range \<Rightarrow> string" where
  "getText document r =
     (let s = offsetAt document (start r); e = offsetAt document (end' r) in
      take (e - s) (drop s (doc_text document)))"

subsection \<open>Symbol lookup\<close>

definition isIdentifierStart :: "char \<Rightarrow> bool" where
  "isIdentifierStart c =
     (c \<in> set ''abcdefghijklmnopqrstuvwxyzABCDEFGHIJKLMNOPQRSTUVWXYZ_'')"

definition isWordChar :: "char \<Rightarrow> bool" where
  "isWordChar c =
     (c \<in> set ''abcdefghijklmnopqrstuvwxyzABCDEFGHIJKLMNOPQRSTUVWXYZ0123456789_'')"

text \<open>\<open>symbol.match(/^[a-zA-Z_][a-zA-Z0-9_]*$/)\<close>\<close>

definition isIdentifier :: "string \<Rightarrow> bool" where
  "isIdentifier symbol =
     (case symbol of [] \<Rightarrow> False | c # cs \<Rightarrow> isIdentifierStart c \<and> list_all isWordChar cs)"

text \<open>
  The regular expression \<open>\bsymbol\b\<close> for a symbol that passed the check above: the
  symbol stands at index \<open>i\<close> between two word boundaries.
\<close>

definition wordAt :: "string \<Rightarrow> nat \<Rightarrow> bool" where
  "wordAt s i = (i < length s \<and> isWordChar (s ! i))"

definition wordBoundary :: "string \<Rightarrow> nat \<Rightarrow> bool" where
  "wordBoundary s i = ((0 < i \<and> wordAt s (i - 1)) \<noteq> wordAt s i)"

definition matchesAt :: "string \<Rightarrow> string \<Rightarrow> nat \<Rightarrow> bool" where
  "matchesAt symbol s i =
     (wordBoundary s i \<and> take (length symbol) (drop i s) = symbol \<and>
      wordBoundary s (i + length symbol))"

datatype DefinitionLink =
    LocationLink (targetUri: string) (targetRange: Range) (targetSelectionRange: "Range option")
  | Location (uri: string) (loc_range: Range)

text \<open>
  A \<open>SymbolInfo\<close>; the positions and ranges are kept as the editor's values, from which
  the converters of \<open>./utils\<close> make the panel's.
\<close>

record 'fp FileLocation =
  loc_filepath :: 'fp
  loc_position :: Position

record 'fp FileRange =
  rng_filepath :: 'fp
  rng_location :: Range

record 'fp SymbolInfo =
  source :: "'fp FileLocation"
  target :: "'fp FileRange"

record ('fp, 'loc) LookupSymbolHint =
  hint_filepath :: "'fp option"
  hint_location :: "'loc option"

text \<open>
  The collaborators of \<open>lookupSymbol\<close>. Opening a document and querying the definition
  provider are asynchronous calls that may reject.
\<close>

record ('fp, 'loc) LookupHost =
  chatPanelFilepathToLocalUri :: "'fp \<Rightarrow> string option"
  openTextDocument :: "string \<Rightarrow> error + TextDocument"
  executeDefinitionProvider :: "string \<Rightarrow> Position \<Rightarrow> error + DefinitionLink list option"
  uriToChatPanelFilepath :: "string \<Rightarrow> 'fp"
  chatPanelLocationToVSCodeRange :: "'loc \<Rightarrow> Range option"

definition makeSymbolInfo ::
  "('fp, 'loc) LookupHost \<Rightarrow> TextDocument \<Rightarrow> Position \<Rightarrow> DefinitionLink \<Rightarrow> 'fp SymbolInfo" where
  "makeSymbolInfo host document position location =
     (case location of
        LocationLink tUri tRange tSelection \<Rightarrow>
          \<lparr>source = \<lparr>loc_filepath = uriToChatPanelFilepath host (doc_uri document),
                      loc_position = position\<rparr>,
           target = \<lparr>rng_filepath = uriToChatPanelFilepath host tUri,
                      rng_location = (case tSelection of Some r \<Rightarrow> r | None \<Rightarrow> tRange)\<rparr>\<rparr>
      | Location lUri lRange \<Rightarrow>
          \<lparr>source = \<lparr>loc_filepath = uriToChatPanelFilepath host (doc_uri document),
                      loc_position = position\<rparr>,
           target = \<lparr>rng_filepath = uriToChatPanelFilepath host lUri,
                      rng_location = lRange\<rparr>\<rparr>)"

text \<open>
  \<open>findSymbolInContent\<close>: the loop \<open>while ((match = matchRegExp.exec(content)) !== null)\<close>
  from \<open>lastIndex\<close>. After a match the global regular expression goes on behind it
  (by the length of the symbol, which is not empty after the check).
\<close>

function findSymbolFrom ::
  "('fp, 'loc) LookupHost \<Rightarrow> string \<Rightarrow> TextDocument \<Rightarrow> string \<Rightarrow> nat \<Rightarrow> nat \<Rightarrow>
   error + 'fp SymbolInfo option" where
  "findSymbolFrom host symbol document content offsetInDocument lastIndex =
     (if lastIndex + length symbol > length content then Inr None
      else if matchesAt symbol content lastIndex then
        (let offset = offsetInDocument + lastIndex;
             position = positionAt document offset
         in case executeDefinitionProvider host (doc_uri document) position of
              Inl e \<Rightarrow> Inl e
            | Inr None \<Rightarrow>
                findSymbolFrom host symbol document content offsetInDocument
                  (lastIndex + Suc (length symbol - 1))
            | Inr (Some []) \<Rightarrow>
                findSymbolFrom host symbol document content offsetInDocument
                  (lastIndex + Suc (length symbol - 1))
            | Inr (Some (location # locations)) \<Rightarrow>
                Inr (Some (makeSymbolInfo host document position location)))
      else findSymbolFrom host symbol document content offsetInDocument (Suc lastIndex))"
  by pat_completeness auto
termination
  by (relation "measure (\<lambda>(h, s, d, content, off, lastIndex). Suc (length content) - lastIndex)")
     auto

declare findSymbolFrom.simps [simp del]

definition findSymbolInContent ::
  "('fp, 'loc) LookupHost \<Rightarrow> string \<Rightarrow> TextDocument \<Rightarrow> string \<Rightarrow> nat \<Rightarrow>
   error + 'fp SymbolInfo option" where
  "findSymbolInContent host symbol document content offsetInDocument =
     findSymbolFrom host symbol document content offsetInDocument 0"

text \<open>The search in one opened document: the hinted window first, then the full text.\<close>

definition findInDocument ::
  "('fp, 'loc) LookupHost \<Rightarrow> string \<Rightarrow> TextDocument \<Rightarrow> 'loc option \<Rightarrow>
   error + 'fp SymbolInfo option" where
  "findInDocument host symbol document hintLocation =
     (let inHint =
        (case hintLocation of
           None \<Rightarrow> Inr None
         | Some loc \<Rightarrow>
             (case chatPanelLocationToVSCodeRange host loc of
                None \<Rightarrow> Inr None
              | Some location \<Rightarrow>
                  (let r = (if \<not> isEmpty location then location
                            else newRange (line (start location)) 0 (lineCount document) 0);
                       content = getText document r;
                       offset = offsetAt document (start r)
                   in findSymbolInContent host symbol document content offset)))
      in case inHint of
           Inl e \<Rightarrow> Inl e
         | Inr (Some symbolInfo) \<Rightarrow> Inr (Some symbolInfo)
         | Inr None \<Rightarrow> findSymbolInContent host symbol document (doc_text document) 0)"

text \<open>The loop \<open>for (const hint of hints ?? [])\<close>.\<close>

fun hintLoop ::
  "('fp, 'loc) LookupHost \<Rightarrow> string \<Rightarrow> ('fp, 'loc) LookupSymbolHint list \<Rightarrow>
   error + 'fp SymbolInfo option" where
  "hintLoop host symbol [] = Inr None"
| "hintLoop host symbol (hint # hints) =
     (case hint_filepath hint of
        None \<Rightarrow> hintLoop host symbol hints
      | Some fp \<Rightarrow>
          (case chatPanelFilepathToLocalUri host fp of
             None \<Rightarrow> hintLoop host symbol hints
           | Some u \<Rightarrow>
               (case openTextDocument host u of
                  Inl e \<Rightarrow> hintLoop host symbol hints
                | Inr document \<Rightarrow>
                    (case findInDocument host symbol document (hint_location hint) of
                       Inl e \<Rightarrow> Inl e
                     | Inr (Some symbolInfo) \<Rightarrow> Inr (Some symbolInfo)
                     | Inr None \<Rightarrow> hintLoop host symbol hints))))"

definition lookupSymbol ::
  "('fp, 'loc) LookupHost \<Rightarrow> string \<Rightarrow> ('fp, 'loc) LookupSymbolHint list option \<Rightarrow>
   error + 'fp SymbolInfo option" where
  "lookupSymbol host symbol hints =
     (if \<not> isIdentifier symbol then Inr None
      else hintLoop host symbol (case hints of None \<Rightarrow> [] | Some hs \<Rightarrow> hs))"

subsection \<open>Example states\<close>

definition emptyWebview :: ChatWebview where
  "emptyWebview = \<lparr>client = None, currentConfig = None, pendingActions = [],
     sessionStateMap = Map.empty, trace = []\<rparr>"

text \<open>\<open>this.currentConfig = config.server\<close>, and \<open>this.currentConfig = undefined\<close>.\<close>

definition withConfig :: "ChatWebview \<Rightarrow> ServerConfig option \<Rightarrow> ChatWebview" where
  "withConfig w cfg = w\<lparr>currentConfig := cfg\<rparr>"

definition configA :: ServerConfig where
  "configA = \<lparr>endpoint = ''https://a.example'', token = ''ta''\<rparr>"

definition configB :: ServerConfig where
  "configB = \<lparr>endpoint = ''https://b.example'', token = ''tb''\<rparr>"

definition exampleRange :: Range where
  "exampleRange = \<lparr>start = \<lparr>line = 0, character = 0\<rparr>, end' = \<lparr>line = 1, character = 0\<rparr>\<rparr>"

definition leafSymbol :: "string \<Rightarrow> DocumentSymbol" where
  "leafSymbol n = DocumentSymbol n 0 [] exampleRange []"

text \<open>A symbol as the editor delivers it: a \<open>SymbolInformation\<close> that carries children.\<close>

definition editorSymbol :: "string \<Rightarrow> ProviderSymbol list \<Rightarrow> ProviderSymbol" where
  "editorSymbol n cs =
     SI \<lparr>name = n, symbolKind = 0, containerName = Some [], location_uri = ''file.ts'',
         location_range = exampleRange\<rparr> cs"

text \<open>A host whose active document has \<open>n\<close> top-level symbols and no workspace symbols.\<close>

definition flatHost :: "nat \<Rightarrow> string SymbolHost" where
  "flatHost n =
     \<lparr>activeTextEditor = Some ''file.ts'',
      executeDocumentSymbolProvider =
        (\<lambda>u. Inr (Some (map (\<lambda>i. editorSymbol (numberToString i) []) [0..<n]))),
      executeWorkspaceSymbolProvider = (\<lambda>q. Inr (Some [])),
      localUriToChatPanelFilepath = (\<lambda>u. u),
      vscodeRangeToChatPanelLineRange =
        (\<lambda>r. \<lparr>line_start = Suc (line (start r)), line_end = Suc (line (end' r))\<rparr>),
      filepathToString = (\<lambda>fp. fp)\<rparr>"

subsection \<open>Notions used to state the properties of change collection\<close>







subsection \<open>Notions used to state the properties of the capability client\<close>

text \<open>The three host-to-panel operations that queue a pending action.\<close>

datatype HostOp =
    SetActiveSelectionOp EditorContext
  | AddRelevantContextOp EditorContext
  | ExecuteCommandOp string

fun hostOp :: "ChatWebview \<Rightarrow> HostOp \<Rightarrow> error + ChatWebview" where
  "hostOp w (SetActiveSelectionOp selection) = setActiveSelection w selection"
| "hostOp w (AddRelevantContextOp context) = addRelevantContext w context"
| "hostOp w (ExecuteCommandOp command) = executeCommand w command"

fun hostOps :: "ChatWebview \<Rightarrow> HostOp list \<Rightarrow> error + ChatWebview" where
  "hostOps w [] = Inr w"
| "hostOps w (op # ops) = (case hostOp w op of Inl e \<Rightarrow> Inl e | Inr w' \<Rightarrow> hostOps w' ops)"

text \<open>The closure an operation queues when there is no handle.\<close>

fun pendingOf :: "HostOp \<Rightarrow> PendingAction" where
  "pendingOf (SetActiveSelectionOp selection) = PendingActiveSelection selection"
| "pendingOf (AddRelevantContextOp context) = PendingRelevantContext context"
| "pendingOf (ExecuteCommandOp command) = PendingCommand command"

text \<open>What running a pending action adds to the trace when the handle is \<open>c\<close>.\<close>

definition ranEvents :: "ServerApiList \<Rightarrow> PendingAction \<Rightarrow> Event list" where
  "ranEvents c fn = trace (run_pending (emptyWebview\<lparr>client := Some c\<rparr>) fn)"

text \<open>The log message that marks the run of a pending action.\<close>

fun marker :: "PendingAction \<Rightarrow> Event" where
  "marker (PendingActiveSelection selection) =
     Info ''Set pending active selection'' (ArgContext selection)"
| "marker (PendingRelevantContext context) =
     Info ''Adding pending relevant context'' (ArgContext context)"
| "marker (PendingCommand command) = Info ''Executing pending command'' (ArgCommand command)"

fun isInfo :: "Event \<Rightarrow> bool" where
  "isInfo (Info m a) = True"
| "isInfo e = False"

fun isCall :: "Event \<Rightarrow> bool" where
  "isCall (Call v c) = True"
| "isCall e = False"

text \<open>
  Modelled from the spec: \<open>isCompatible\<close> of \<open>./utils\<close> is not among the sources; the
  specification describes it as "compatible (greater-or-equal under semantic versioning)".
  The model covers plain versions only, the form of the keys of a handle: an optional
  \<open>v\<close>, then \<open>MAJOR.MINOR.PATCH\<close> in decimal without leading zeros and not above
  \<open>Number.MAX_SAFE_INTEGER\<close>. On these it agrees with \<open>semver.valid\<close> and
  \<open>semver.gte\<close>; versions with prerelease or build parts are outside the model, which
  takes them as not valid. It is used for example handles only.
\<close>

definition digitValue :: "char \<Rightarrow> nat option" where
  "digitValue c = map_of (zip ''0123456789'' [0, 1, 2, 3, 4, 5, 6, 7, 8, 9]) c"

fun parseDigits :: "nat \<Rightarrow> string \<Rightarrow> nat option" where
  "parseDigits n [] = Some n"
| "parseDigits n (c # cs) =
     (case digitValue c of None \<Rightarrow> None | Some d \<Rightarrow> parseDigits (10 * n + d) cs)"

definition parseNumber :: "string \<Rightarrow> nat option" where
  "parseNumber s =
     (if s = [] \<or> (1 < length s \<and> hd s = CHR ''0'') then None
      else (case parseDigits 0 s of
              None \<Rightarrow> None
            | Some n \<Rightarrow> if n \<le> 9007199254740991 then Some n else None))"

fun splitDots :: "string \<Rightarrow> string list" where
  "splitDots [] = [[]]"
| "splitDots (c # cs) =
     (if c = CHR ''.'' then [] # splitDots cs
      else (case splitDots cs of [] \<Rightarrow> [[c]] | p # ps \<Rightarrow> (c # p) # ps))"

definition parseVersion :: "string \<Rightarrow> (nat \<times> nat \<times> nat) option" where
  "parseVersion s =
     (case map parseNumber (splitDots (if s \<noteq> [] \<and> hd s = CHR ''v'' then tl s else s)) of
        [Some major, Some minor, Some patch] \<Rightarrow> Some (major, minor, patch)
      | _ \<Rightarrow> None)"

definition plainVersionValid :: "string \<Rightarrow> bool" where
  "plainVersionValid s = (parseVersion s \<noteq> None)"

definition plainVersionGte :: "string \<Rightarrow> string \<Rightarrow> bool" where
  "plainVersionGte version wanted =
     (case (parseVersion version, parseVersion wanted) of
        (Some v, Some t) \<Rightarrow> t \<le> v
      | _ \<Rightarrow> False)"

definition handleWith :: "ServerApiList \<Rightarrow> ChatWebview" where
  "handleWith c = emptyWebview\<lparr>client := Some c\<rparr>"

definition terminalContext :: EditorContext where
  "terminalContext = \<lparr>kind = ''terminal'', payload = ''ls''\<rparr>"

definition fileContext :: EditorContext where
  "fileContext = \<lparr>kind = ''file'', payload = ''main.ts''\<rparr>"

subsection \<open>Breadth-first order of a symbol forest\<close>

text \<open>The symbol tree of the document: every delivered object with its children.\<close>

fun symbolRoot :: "string \<Rightarrow> ProviderSymbol \<Rightarrow> SymbolInformation" where
  "symbolRoot documentUri (DS d) = convertSymbol documentUri d"
| "symbolRoot documentUri (SI s cs) = s"

fun symbolChildren :: "ProviderSymbol \<Rightarrow> ProviderSymbol list" where
  "symbolChildren (DS d) = map DS (children d)"
| "symbolChildren (SI s cs) = cs"

text \<open>An object whose children the loop reads: a \<open>DocumentSymbol\<close>, or one without children.\<close>

text \<open>\<open>current instanceof DocumentSymbol\<close>\<close>

fun isDocumentSymbol :: "ProviderSymbol \<Rightarrow> bool" where
  "isDocumentSymbol (DS d) = True"
| "isDocumentSymbol (SI s cs) = False"

fun readable :: "ProviderSymbol \<Rightarrow> bool" where
  "readable (DS d) = True"
| "readable (SI s cs) = (cs = [])"

text \<open>
  The breadth-first flattening, level by level: the symbols of a level in order, then the
  flattening of the next level, which holds their children in the same order.
\<close>

function breadthFirst :: "string \<Rightarrow> ProviderSymbol list \<Rightarrow> SymbolInformation list" where
  "breadthFirst documentUri level =
     (if level = [] then []
      else map (symbolRoot documentUri) level
           @ breadthFirst documentUri (concat (map symbolChildren level)))"
  by pat_completeness auto
termination
proof (relation "measure (\<lambda>(u, level). sum_list (map symbolSize level))", goal_cases)
  case 1
  show ?case by simp
next
  case (2 documentUri level)
  have one: "sum_list (map symbolSize (symbolChildren s)) < symbolSize s" for s
  proof (cases s)
    case (DS d)
    then show ?thesis by (cases d) (simp add: size_list_conv_sum_list comp_def)
  next
    case (SI i cs)
    then show ?thesis by simp
  qed
  have "xs \<noteq> [] \<Longrightarrow>
        sum_list (map symbolSize (concat (map symbolChildren xs))) < sum_list (map symbolSize xs)"
    for xs
  proof (induction xs)
    case Nil
    then show ?case by simp
  next
    case (Cons x xs)
    show ?case
    proof (cases "xs = []")
      case True
      then show ?thesis using one[of x] by simp
    next
      case False
      with Cons.IH one[of x] show ?thesis by simp
    qed
  qed
  with 2 show ?case by simp
qed

declare breadthFirst.simps [simp del]

text \<open>The same traversal with a queue and no limit.\<close>

function queueOrder :: "string \<Rightarrow> ProviderSymbol list \<Rightarrow> SymbolInformation list" where
  "queueOrder documentUri [] = []"
| "queueOrder documentUri (current # queue) =
     symbolRoot documentUri current # queueOrder documentUri (queue @ symbolChildren current)"
  by pat_completeness auto
termination
proof (relation "measure (\<lambda>(u, queue). sum_list (map symbolSize queue))", goal_cases)
  case 1
  show ?case by simp
next
  case (2 documentUri current queue)
  have "sum_list (map symbolSize (symbolChildren current)) < symbolSize current"
  proof (cases current)
    case (DS d)
    then show ?thesis by (cases d) (simp add: size_list_conv_sum_list comp_def)
  next
    case (SI i cs)
    then show ?thesis by simp
  qed
  then show ?case by simp
qed

text \<open>
  A document with two classes, their members and one nested member: the tree
  \<open>A[a1[x], a2], B[b1]\<close>, once as the editor delivers it and once as instances of
  \<open>DocumentSymbol\<close>.
\<close>

definition nestedTree :: "ProviderSymbol list" where
  "nestedTree =
     [editorSymbol ''A'' [editorSymbol ''a1'' [editorSymbol ''x'' []], editorSymbol ''a2'' []],
      editorSymbol ''B'' [editorSymbol ''b1'' []]]"

definition nestedDocumentSymbols :: "ProviderSymbol list" where
  "nestedDocumentSymbols =
     [DS (DocumentSymbol ''A'' 4 [] exampleRange
            [DocumentSymbol ''a1'' 5 [] exampleRange [leafSymbol ''x''], leafSymbol ''a2'']),
      DS (DocumentSymbol ''B'' 4 [] exampleRange [leafSymbol ''b1''])]"

definition symbolHost :: "ProviderSymbol list \<Rightarrow> string SymbolHost" where
  "symbolHost symbols =
     \<lparr>activeTextEditor = Some ''file.ts'',
      executeDocumentSymbolProvider = (\<lambda>u. Inr (Some symbols)),
      executeWorkspaceSymbolProvider = (\<lambda>q. Inr (Some [])),
      localUriToChatPanelFilepath = (\<lambda>u. u),
      vscodeRangeToChatPanelLineRange =
        (\<lambda>r. \<lparr>line_start = Suc (line (start r)), line_end = Suc (line (end' r))\<rparr>),
      filepathToString = (\<lambda>fp. fp)\<rparr>"

subsection \<open>Notions used to state the properties of merging\<close>

text \<open>The first occurrence of every key, in the order of the list.\<close>

function firstOccurrences :: "('a \<Rightarrow> 'k) \<Rightarrow> 'a list \<Rightarrow> 'a list" where
  "firstOccurrences key [] = []"
| "firstOccurrences key (x # xs) = x # firstOccurrences key (filter (\<lambda>y. key y \<noteq> key x) xs)"
  by pat_completeness auto
termination
  by (relation "measure (\<lambda>(key, xs). length xs)") (auto simp: less_Suc_eq_le)

definition score :: "string \<Rightarrow> 'fp ListSymbolItem \<Rightarrow> int" where
  "score query item = getMatchScore query (label item)"

text \<open>The order of the result: higher score first, and the shorter label first among equal scores.\<close>

definition rankedBefore :: "string \<Rightarrow> 'fp ListSymbolItem \<Rightarrow> 'fp ListSymbolItem \<Rightarrow> bool" where
  "rankedBefore query a b =
     (score query b < score query a \<or>
      (score query a = score query b \<and> length (label a) \<le> length (label b)))"

definition sameRank :: "string \<Rightarrow> int \<Rightarrow> nat \<Rightarrow> 'fp ListSymbolItem \<Rightarrow> bool" where
  "sameRank query s n item = (score query item = s \<and> length (label item) = n)"

definition rank :: "string \<Rightarrow> 'fp ListSymbolItem \<Rightarrow> int \<times> nat" where
  "rank query item = (- score query item, length (label item))"

definition namedItem :: "string \<Rightarrow> string \<Rightarrow> string ListSymbolItem" where
  "namedItem fp lbl = \<lparr>filepath = fp, range = \<lparr>line_start = 1, line_end = 2\<rparr>, label = lbl\<rparr>"

subsection \<open>Example documents for symbol lookup\<close>

text \<open>A document of two lines: \<open>x = 1\<close> and \<open>y = 2\<close>.\<close>

definition twoLines :: TextDocument where
  "twoLines = \<lparr>doc_uri = ''f.ts'', doc_text = ''x = 1'' @ [CHR 0x0A] @ ''y = 2'' @ [CHR 0x0A]\<rparr>"

definition definitionTarget :: DefinitionLink where
  "definitionTarget = Location ''g.ts'' (newRange 7 0 7 1)"

text \<open>
  A host that opens \<open>f.ts\<close> only; the definition provider resolves every position to one
  location, or rejects every query.
\<close>

definition lookupHost :: "bool \<Rightarrow> (string, Range) LookupHost" where
  "lookupHost rejects =
     \<lparr>chatPanelFilepathToLocalUri = (\<lambda>fp. if fp = [] then None else Some fp),
      openTextDocument = (\<lambda>u. if u = ''f.ts'' then Inr twoLines else Inl Rejected),
      executeDefinitionProvider =
        (\<lambda>u p. if rejects then Inl Rejected else Inr (Some [definitionTarget])),
      uriToChatPanelFilepath = (\<lambda>u. u),
      chatPanelLocationToVSCodeRange = Some\<rparr>"

definition hintAtLine :: "string \<Rightarrow> nat \<Rightarrow> (string, Range) LookupSymbolHint" where
  "hintAtLine fp n = \<lparr>hint_filepath = Some fp, hint_location = Some (newRange n 0 n 0)\<rparr>"

section \<open>Properties\<close>

subsection \<open>Session state\<close>

lemma filterKeys_dom:
  "dom (filterKeys st ks acc) \<subseteq> dom acc \<union> {k \<in> set ks. js_in k st}"
proof (induction ks arbitrary: acc)
  case Nil
  then show ?case by simp
next
  case (Cons k ks)
  show ?case
  proof (cases "js_in k st")
    case True
    have "dom (js_assign acc k (js_get st k)) \<subseteq> insert k (dom acc)"
      by (auto simp: js_assign_def split: if_splits)
    with Cons.IH[of "js_assign acc k (js_get st k)"] True show ?thesis by auto
  next
    case False
    with Cons.IH[of acc] show ?thesis by auto
  qed
qed

lemma filterKeys_own:
  assumes "\<forall>k \<in> set ks. k \<notin> set object_prototype_names"
  shows "filterKeys st ks acc = acc ++ (st |` set ks)"
  using assms
proof (induction ks arbitrary: acc)
  case Nil
  then show ?case by simp
next
  case (Cons k ks)
  have np: "k \<noteq> ''__proto__''" using Cons.prems by (auto simp: object_prototype_names_def)
  show ?case
  proof (cases "st k")
    case None
    then have "filterKeys st (k # ks) acc = acc ++ (st |` set ks)"
      using Cons by (simp add: js_in_def)
    also have "st |` set ks = st |` set (k # ks)"
      using None by (auto simp: restrict_map_def fun_eq_iff)
    finally show ?thesis .
  next
    case (Some v)
    then have "filterKeys st (k # ks) acc = acc(k \<mapsto> v) ++ (st |` set ks)"
      using Cons np by (simp add: js_in_def js_assign_def js_get_def)
    also have "\<dots> = acc ++ (st |` set (k # ks))"
      using Some by (auto simp: restrict_map_def fun_eq_iff map_add_def split: option.splits)
    finally show ?thesis .
  qed
qed

lemma fetchSessionState_own_keys:
  assumes "\<forall>k \<in> set ks. k \<notin> set object_prototype_names"
  shows "fetchSessionState w (Some ks) = sessionStateOf w |` set ks"
  using filterKeys_own[OF assms, of "sessionStateOf w" Map.empty]
  by (simp add: fetchSessionState_def)

lemma fetchSessionState_example:
  "fetchSessionState (storeSessionState emptyWebview [''a'' \<mapsto> JNum 1, ''b'' \<mapsto> JNum 2]) (Some [''a''])
   = [''a'' \<mapsto> JNum 1]"
  by (simp add: fetchSessionState_def storeSessionState_def emptyWebview_def sessionStateOf_def
      sessionStateKey_def js_in_def js_assign_def js_get_def fun_eq_iff)

text \<open>
  C7. \<open>fetchSessionState(keys)\<close> is meant to return the stored state restricted to
  the listed keys that are present, other keys being absent from the result. For keys
  that are no member names of \<open>Object.prototype\<close> it does
  (\<open>fetchSessionState_own_keys\<close>, \<open>fetchSessionState_example\<close>). The test
  \<open>key in sessionState\<close> also holds for an inherited name: after
  \<open>storeSessionState({a: 1, b: 2})\<close>, \<open>fetchSessionState(["constructor"])\<close> returns an
  object with the key \<open>constructor\<close>, which was never stored.
\<close>

theorem fetchSessionState_inherited_key:
  "fetchSessionState (storeSessionState emptyWebview [''a'' \<mapsto> JNum 1, ''b'' \<mapsto> JNum 2])
     (Some [''constructor''])
   = [''constructor'' \<mapsto> ObjectPrototypeMember ''constructor'']"
  by (simp add: fetchSessionState_def storeSessionState_def emptyWebview_def sessionStateOf_def
      sessionStateKey_def js_in_def js_assign_def js_get_def object_prototype_names_def)

lemma fetchSessionState_dom:
  "dom (fetchSessionState w keys) \<subseteq> {k. js_in k (sessionStateOf w)}"
proof (cases keys)
  case None
  then show ?thesis by (auto simp: fetchSessionState_def js_in_def)
next
  case (Some ks)
  then show ?thesis using filterKeys_dom[of "sessionStateOf w" ks Map.empty]
    by (auto simp: fetchSessionState_def)
qed

lemma sessionStateOf_store_other:
  assumes "sessionStateKey (withConfig w cfg) \<noteq> sessionStateKey w"
  shows "sessionStateOf (withConfig (storeSessionState w st) cfg) = sessionStateOf (withConfig w cfg)"
  using assms
  by (simp add: sessionStateOf_def storeSessionState_def withConfig_def sessionStateKey_def)

text \<open>
  The frame of a store: for distinct endpoints \<open>A\<close> and \<open>B\<close>, storing a state while
  the endpoint is \<open>A\<close> leaves what \<open>fetchSessionState\<close> returns under \<open>B\<close> unchanged,
  for every \<open>keys\<close> argument.
\<close>

lemma storeSessionState_frame:
  assumes "sessionStateKey w = A" and "sessionStateKey (withConfig w cfg) = B" and "A \<noteq> B"
  shows "fetchSessionState (withConfig (storeSessionState w st) cfg) keys
           = fetchSessionState (withConfig w cfg) keys"
proof -
  have ne: "sessionStateKey (withConfig w cfg) \<noteq> sessionStateKey w" using assms by simp
  have eq: "sessionStateOf (withConfig (storeSessionState w st) cfg) = sessionStateOf (withConfig w cfg)"
    by (rule sessionStateOf_store_other[OF ne])
  show ?thesis by (simp add: fetchSessionState_def eq)
qed

text \<open>
  A key that is no member name of \<open>Object.prototype\<close> and that the partition of \<open>B\<close>
  does not hold is absent from every result under \<open>B\<close>, whatever was stored under
  \<open>A\<close>.
\<close>

lemma storeSessionState_own_key_absent:
  assumes "sessionStateKey w = A" and "sessionStateKey (withConfig w cfg) = B" and "A \<noteq> B"
    and "k \<notin> set object_prototype_names" and "sessionStateOf (withConfig w cfg) k = None"
  shows "k \<notin> dom (fetchSessionState (withConfig (storeSessionState w st) cfg) keys)"
proof -
  have "\<not> js_in k (sessionStateOf (withConfig w cfg))" using assms(4,5) by (simp add: js_in_def)
  then have "k \<notin> dom (fetchSessionState (withConfig w cfg) keys)"
    using fetchSessionState_dom[of "withConfig w cfg" keys] by auto
  then show ?thesis using storeSessionState_frame[OF assms(1,2,3)] by simp
qed

text \<open>
  C8. The claim has every key stored under endpoint \<open>A\<close> absent from the result of
  \<open>fetchSessionState\<close> under endpoint \<open>B\<close>, unless the partition of \<open>B\<close> already held
  it. The store under \<open>A\<close> does leave the results under \<open>B\<close> as they were
  (\<open>storeSessionState_frame\<close>), but the test \<open>key in sessionState\<close> of
  \<open>fetchSessionState\<close> holds for every member name of \<open>Object.prototype\<close>: after
  \<open>storeSessionState({constructor: 1})\<close> under \<open>A\<close>, with nothing stored under \<open>B\<close>,
  \<open>fetchSessionState(["constructor"])\<close> under \<open>B\<close> returns an object with the key
  \<open>constructor\<close>.
\<close>

theorem fetchSessionState_inherited_key_under_other_endpoint:
  "sessionStateMap
     (withConfig (storeSessionState (withConfig emptyWebview (Some configA))
                    [''constructor'' \<mapsto> JNum 1]) (Some configB))
     ''https://b.example'' = None
   \<and> fetchSessionState
       (withConfig (storeSessionState (withConfig emptyWebview (Some configA))
                      [''constructor'' \<mapsto> JNum 1]) (Some configB))
       (Some [''constructor''])
     = [''constructor'' \<mapsto> ObjectPrototypeMember ''constructor'']"
  by (simp add: fetchSessionState_def storeSessionState_def emptyWebview_def sessionStateOf_def
      sessionStateKey_def withConfig_def configA_def configB_def js_in_def js_assign_def js_get_def
      object_prototype_names_def)

subsection \<open>The default limit of symbol listing\<close>

text \<open>
  C10. When the \<open>limit\<close> parameter of \<open>listSymbols\<close> is missing, zero or negative,
  the limit used is 20: the call returns what a call with limit 20 returns, at most 20
  items (and not the empty list a limit of 0 might suggest).
\<close>

theorem listSymbols_default_limit:
  assumes "limit = None \<or> limit = Some 0 \<or> (\<exists>l. limit = Some l \<and> l < 0)"
  shows "effectiveLimit limit = 20
       \<and> listSymbols host query limit = listSymbols host query (Some 20)
       \<and> length (fst (listSymbols host query limit)) \<le> 20"
proof -
  have e: "effectiveLimit limit = 20" using assms by (auto simp: effectiveLimit_def)
  have e20: "effectiveLimit (Some 20) = 20" by (simp add: effectiveLimit_def)
  have eq: "listSymbols host query limit = listSymbols host query (Some 20)"
    unfolding listSymbols_def e e20 by (rule refl)
  have len: "length (fst (listSymbols host query limit)) \<le> 20"
    by (auto simp: listSymbols_def e mergeResults_def Let_def split: option.splits sum.splits)
  show ?thesis using e eq len by simp
qed

theorem listSymbols_default_limit_witness:
  "effectiveLimit (Some 0) = 20
   \<and> listSymbols (flatHost 25) [] (Some 0) = listSymbols (flatHost 25) [] (Some 20)
   \<and> length (fst (listSymbols (flatHost 25) [] (Some 0))) = 20"
proof -
  have len: "length (fst (listSymbols (flatHost 25) [] (Some 20))) = 20"
    by code_simp
  have h: "Some (0::int) = None \<or> Some (0::int) = Some 0 \<or> (\<exists>l. Some (0::int) = Some l \<and> l < 0)"
    by simp
  from listSymbols_default_limit[OF h, of "flatHost 25" "[]"] len show ?thesis by simp
qed

subsection \<open>Change collection\<close>


















subsection \<open>Capability client and pending actions\<close>

lemma emit_simps [simp]:
  "client (emit w evs) = client w" "pendingActions (emit w evs) = pendingActions w"
  "trace (emit w evs) = trace w @ evs" "currentConfig (emit w evs) = currentConfig w"
  by (simp_all add: emit_def)

lemma run_pending_emit:
  "client w = Some c \<Longrightarrow> run_pending w fn = emit w (ranEvents c fn)"
  by (cases fn)
     (simp_all add: ranEvents_def emptyWebview_def pending_required_def pending_optional_def emit_def)

lemma ranEvents_marker: "filter isInfo (ranEvents c fn) = [marker fn]"
  by (cases fn)
     (auto simp: ranEvents_def emptyWebview_def pending_required_def pending_optional_def emit_def
        required_call_def optional_call_def)

lemma foldl_run_pending:
  "client w = Some c \<Longrightarrow>
   foldl run_pending w fns = emit w (concat (map (ranEvents c) fns))"
proof (induction fns arbitrary: w)
  case Nil
  then show ?case by (simp add: emit_def)
next
  case (Cons fn fns)
  have "client (emit w (ranEvents c fn)) = Some c" using Cons.prems by simp
  from Cons.IH[OF this] show ?case
    using Cons.prems by (simp add: run_pending_emit) (simp add: emit_def)
qed

lemma filter_isInfo_concat:
  "filter isInfo (concat (map (ranEvents c) fns)) = map marker fns"
  by (induction fns) (simp_all add: ranEvents_marker)

lemma hostOp_enqueue:
  "client w = None \<Longrightarrow> hostOp w op = Inr (push_pending w (pendingOf op))"
  by (cases op) (simp_all add: setActiveSelection_def addRelevantContext_def executeCommand_def)

lemma hostOps_enqueue:
  "client w = None \<Longrightarrow>
   hostOps w ops = Inr (w\<lparr>pendingActions := pendingActions w @ map pendingOf ops\<rparr>)"
proof (induction ops arbitrary: w)
  case Nil
  then show ?case by simp
next
  case (Cons op ops)
  have "client (push_pending w (pendingOf op)) = None"
    using Cons.prems by (simp add: push_pending_def)
  from Cons.IH[OF this] show ?case
    using Cons.prems by (simp add: hostOp_enqueue) (simp add: push_pending_def)
qed

lemma initChatPanel_flush:
  "\<exists>rest. filter isInfo rest = []
     \<and> fst (initChatPanel isMac w c)
         = w\<lparr>client := Some c, pendingActions := [],
              trace := trace w @ concat (map (ranEvents c) (pendingActions w)) @ rest\<rparr>"
proof -
  have f: "foldl run_pending (w\<lparr>client := Some c\<rparr>) (pendingActions w)
           = emit (w\<lparr>client := Some c\<rparr>) (concat (map (ranEvents c) (pendingActions w)))"
    by (rule foldl_run_pending) simp
  show ?thesis
  proof (cases "''0.8.0'' \<in> set c")
    case True
    show ?thesis
      by (rule exI[of _ "[Call ''0.8.0'' (Init (case currentConfig w of None \<Rightarrow> [] | Some cfg \<Rightarrow> token cfg) isMac),
                           PostMessage ''showChatPanel'']"])
         (simp add: initChatPanel_def Let_def f required_call_def True emit_def)
  next
    case False
    show ?thesis
      by (rule exI[of _ "[]"])
         (simp add: initChatPanel_def Let_def f required_call_def False emit_def)
  qed
qed

lemma direct_same_calls:
  assumes "''0.8.0'' \<in> set c" and "client w = Some c"
  shows "\<exists>w'. hostOp w op = Inr w'
        \<and> filter isCall (trace w') = filter isCall (trace w) @ filter isCall (ranEvents c (pendingOf op))"
  using assms
  by (cases op)
     (auto simp: setActiveSelection_def addRelevantContext_def executeCommand_def
        ranEvents_def emptyWebview_def pending_required_def pending_optional_def emit_def
        required_call_def optional_call_def)

text \<open>
  C1. While there is no handle, each of the operations set selection, add context and
  run a command queues a pending action and sends nothing. When \<open>initChatPanel\<close> has
  the handle \<open>c\<close>, it sets the handle and runs every pending action against \<open>c\<close>,
  in the order queued: the trace grows by the events of each action in turn, the log
  shows the marker of each queued action exactly once and in order, and the queue is
  empty afterwards, so that a later \<open>initChatPanel\<close> runs none of them again. On a
  handle that has the key \<open>0.8.0\<close>, a pending action makes the same calls to the
  panel as the direct call of its operation.
\<close>

theorem pending_actions_run_once_in_order:
  assumes "client w = None"
  shows "\<exists>w1. hostOps w ops = Inr w1
      \<and> client w1 = None \<and> trace w1 = trace w
      \<and> pendingActions w1 = pendingActions w @ map pendingOf ops
      \<and> (\<exists>w2 rest. fst (initChatPanel isMac w1 c) = w2
            \<and> client w2 = Some c \<and> pendingActions w2 = []
            \<and> trace w2 = trace w @ concat (map (ranEvents c) (pendingActions w1)) @ rest
            \<and> filter isInfo rest = []
            \<and> filter isInfo (trace w2) = filter isInfo (trace w) @ map marker (pendingActions w1)
            \<and> (\<forall>c'. filter isInfo (trace (fst (initChatPanel isMac w2 c')))
                      = filter isInfo (trace w2)))
      \<and> (''0.8.0'' \<in> set c \<longrightarrow>
           (\<forall>op. \<exists>w'. hostOp (w\<lparr>client := Some c\<rparr>) op = Inr w'
                 \<and> filter isCall (trace w')
                     = filter isCall (trace w) @ filter isCall (ranEvents c (pendingOf op))))"
proof -
  define w1 where "w1 = w\<lparr>pendingActions := pendingActions w @ map pendingOf ops\<rparr>"
  have q: "hostOps w ops = Inr w1"
    unfolding w1_def by (rule hostOps_enqueue[OF assms])
  have b: "client w1 = None" "trace w1 = trace w"
    "pendingActions w1 = pendingActions w @ map pendingOf ops"
    using assms by (simp_all add: w1_def)
  from initChatPanel_flush[of isMac w1 c] obtain rest where rest: "filter isInfo rest = []"
    and w2: "fst (initChatPanel isMac w1 c)
         = w1\<lparr>client := Some c, pendingActions := [],
              trace := trace w1 @ concat (map (ranEvents c) (pendingActions w1)) @ rest\<rparr>"
    by blast
  define w2 where "w2 = fst (initChatPanel isMac w1 c)"
  have c2: "client w2 = Some c" "pendingActions w2 = []"
    "trace w2 = trace w @ concat (map (ranEvents c) (pendingActions w1)) @ rest"
    by (simp_all add: w2_def w2 b(2))
  have i2: "filter isInfo (trace w2) = filter isInfo (trace w) @ map marker (pendingActions w1)"
    by (simp add: c2(3) rest filter_isInfo_concat)
  have again: "filter isInfo (trace (fst (initChatPanel isMac w2 c'))) = filter isInfo (trace w2)" for c'
  proof -
    from initChatPanel_flush[of isMac w2 c'] obtain r where r: "filter isInfo r = []"
      and e: "fst (initChatPanel isMac w2 c')
         = w2\<lparr>client := Some c', pendingActions := [],
              trace := trace w2 @ concat (map (ranEvents c') (pendingActions w2)) @ r\<rparr>"
      by blast
    show ?thesis by (simp add: e c2(2) r)
  qed
  have same: "''0.8.0'' \<in> set c \<longrightarrow>
           (\<forall>op. \<exists>w'. hostOp (w\<lparr>client := Some c\<rparr>) op = Inr w'
                 \<and> filter isCall (trace w')
                     = filter isCall (trace w) @ filter isCall (ranEvents c (pendingOf op)))"
  proof (intro impI allI)
    fix op assume h: "''0.8.0'' \<in> set c"
    from direct_same_calls[OF h, of "w\<lparr>client := Some c\<rparr>" op]
    show "\<exists>w'. hostOp (w\<lparr>client := Some c\<rparr>) op = Inr w'
                 \<and> filter isCall (trace w')
                     = filter isCall (trace w) @ filter isCall (ranEvents c (pendingOf op))"
      by simp
  qed
  have flush: "\<exists>w2 rest. fst (initChatPanel isMac w1 c) = w2
            \<and> client w2 = Some c \<and> pendingActions w2 = []
            \<and> trace w2 = trace w @ concat (map (ranEvents c) (pendingActions w1)) @ rest
            \<and> filter isInfo rest = []
            \<and> filter isInfo (trace w2) = filter isInfo (trace w) @ map marker (pendingActions w1)
            \<and> (\<forall>c'. filter isInfo (trace (fst (initChatPanel isMac w2 c')))
                      = filter isInfo (trace w2))"
    using c2 rest i2 again w2_def by blast
  show ?thesis
    using q b flush same by blast
qed

theorem pending_actions_run_once_in_order_witness:
  "client emptyWebview = None
   \<and> (\<exists>w1. hostOps emptyWebview [SetActiveSelectionOp fileContext, AddRelevantContextOp terminalContext,
                                  ExecuteCommandOp ''explain''] = Inr w1
        \<and> pendingActions w1 = [PendingActiveSelection fileContext, PendingRelevantContext terminalContext,
                                PendingCommand ''explain'']
        \<and> trace (fst (initChatPanel False w1 [''0.8.0'']))
            = [Info ''Set pending active selection'' (ArgContext fileContext),
               Call ''0.8.0'' (UpdateActiveSelection (Some fileContext)),
               Info ''Adding pending relevant context'' (ArgContext terminalContext),
               Info ''Executing pending command'' (ArgCommand ''explain''),
               Call ''0.8.0'' (ExecuteCommand ''explain''),
               Call ''0.8.0'' (Init [] False),
               PostMessage ''showChatPanel'']
        \<and> pendingActions (fst (initChatPanel False w1 [''0.8.0''])) = [])"
proof -
  have n: "client emptyWebview = None" by (simp add: emptyWebview_def)
  from pending_actions_run_once_in_order[OF n,
      of "[SetActiveSelectionOp fileContext, AddRelevantContextOp terminalContext, ExecuteCommandOp ''explain'']"
         False "[''0.8.0'']"]
  obtain w1 where w1: "hostOps emptyWebview [SetActiveSelectionOp fileContext,
        AddRelevantContextOp terminalContext, ExecuteCommandOp ''explain''] = Inr w1"
    and p: "pendingActions w1 = pendingActions emptyWebview
        @ map pendingOf [SetActiveSelectionOp fileContext, AddRelevantContextOp terminalContext,
                         ExecuteCommandOp ''explain'']"
    and e: "pendingActions (fst (initChatPanel False w1 [''0.8.0''])) = []"
    by blast
  have w1': "w1 = emptyWebview\<lparr>pendingActions := [PendingActiveSelection fileContext,
        PendingRelevantContext terminalContext, PendingCommand ''explain'']\<rparr>"
    using w1
    by (simp add: setActiveSelection_def addRelevantContext_def executeCommand_def emptyWebview_def
        push_pending_def)
  have t: "trace (fst (initChatPanel False w1 [''0.8.0'']))
            = [Info ''Set pending active selection'' (ArgContext fileContext),
               Call ''0.8.0'' (UpdateActiveSelection (Some fileContext)),
               Info ''Adding pending relevant context'' (ArgContext terminalContext),
               Info ''Executing pending command'' (ArgCommand ''explain''),
               Call ''0.8.0'' (ExecuteCommand ''explain''),
               Call ''0.8.0'' (Init [] False),
               PostMessage ''showChatPanel'']"
    unfolding w1'
    by (simp add: initChatPanel_def emptyWebview_def Let_def pending_required_def
        pending_optional_def required_call_def optional_call_def emit_def terminalContext_def
        fileContext_def)
  have p': "pendingActions w1 = [PendingActiveSelection fileContext, PendingRelevantContext terminalContext,
                                PendingCommand ''explain'']"
    using p by (simp add: emptyWebview_def)
  show ?thesis using n w1 p' t e by blast
qed

text \<open>
  C2 states, for every version \<open>v\<close> and operation, that the capability check holds iff
  some key of the handle is a valid version at or above \<open>v\<close> and exposes the
  operation. The capability check of the code, \<open>isTerminalContextEnabled\<close>, has no
  version and no operation argument; it compares with \<open>0.10.0\<close>. On the handle with
  the keys \<open>0.8.0\<close> and \<open>0.10.0\<close> it holds although no key is at or above
  \<open>0.11.0\<close>; on the handle with the key \<open>0.8.0\<close> it does not hold although that key
  is at or above \<open>0.8.0\<close> and takes the call of \<open>updateActiveSelection\<close>.
\<close>

theorem capability_check_has_fixed_version:
  "isTerminalContextEnabled plainVersionValid plainVersionGte (handleWith [''0.8.0'', ''0.10.0''])
   \<and> \<not> plainVersionGte ''0.8.0'' ''0.11.0'' \<and> \<not> plainVersionGte ''0.10.0'' ''0.11.0''
   \<and> \<not> isTerminalContextEnabled plainVersionValid plainVersionGte (handleWith [''0.8.0''])
   \<and> plainVersionValid ''0.8.0'' \<and> plainVersionGte ''0.8.0'' ''0.8.0''
   \<and> setActiveSelection (handleWith [''0.8.0'']) fileContext
       = Inr (emit (handleWith [''0.8.0''])
               [Info ''Set active selection'' (ArgContext fileContext),
                Call ''0.8.0'' (UpdateActiveSelection (Some fileContext))])"
  by (simp add: isTerminalContextEnabled_def getApiVersions_def handleWith_def emptyWebview_def
      plainVersionValid_def plainVersionGte_def parseVersion_def parseNumber_def digitValue_def
      setActiveSelection_def required_call_def)

text \<open>
  C2, as the code has it. The capability check of the code has no version or operation
  argument: it holds iff some key of the handle is a valid semantic version that
  \<open>isCompatible\<close> accepts for \<open>0.10.0\<close>; with the model of plain versions, iff some key
  is a plain version at or above \<open>0.10.0\<close>. On a handle that has the key \<open>0.8.0\<close>, as
  every handle of the type \<open>ServerApiList\<close> has, no operation raises; the operations of
  the key \<open>0.10.0\<close> (adding a terminal context, the command \<open>explain-terminal\<close>) are
  skipped when that key is absent, sending nothing, and sent when it is present.
\<close>

theorem capability_gating:
  "(isTerminalContextEnabled valid isCompatible w
      \<longleftrightarrow> (\<exists>c. client w = Some c \<and> (\<exists>version \<in> set c. valid version \<and> isCompatible version ''0.10.0'')))
   \<and> (isTerminalContextEnabled plainVersionValid plainVersionGte w
      \<longleftrightarrow> (\<exists>c. client w = Some c
               \<and> (\<exists>version \<in> set c. \<exists>t. parseVersion version = Some t \<and> (0, 10, 0) \<le> t)))
   \<and> (client w = Some c \<and> ''0.8.0'' \<in> set c \<longrightarrow>
        (\<forall>op. \<exists>w'. hostOp w op = Inr w')
        \<and> (''0.10.0'' \<notin> set c \<longrightarrow>
             (kind context = ''terminal'' \<longrightarrow>
                addRelevantContext w context
                  = Inr (emit w [Info ''Adding relevant context'' (ArgContext context)]))
             \<and> executeCommand w ''explain-terminal''
                  = Inr (emit w [Info ''Executing command'' (ArgCommand ''explain-terminal'')]))
        \<and> (''0.10.0'' \<in> set c \<longrightarrow>
             (kind context = ''terminal'' \<longrightarrow>
                addRelevantContext w context
                  = Inr (emit w [Info ''Adding relevant context'' (ArgContext context),
                                 Call ''0.10.0'' (AddRelevantContext context)]))
             \<and> executeCommand w ''explain-terminal''
                  = Inr (emit w [Info ''Executing command'' (ArgCommand ''explain-terminal''),
                                 Call ''0.10.0'' (ExecuteCommand ''explain-terminal'')])))"
proof (intro conjI)
  show g: "isTerminalContextEnabled valid isCompatible w
      \<longleftrightarrow> (\<exists>c. client w = Some c \<and> (\<exists>version \<in> set c. valid version \<and> isCompatible version ''0.10.0''))"
    for valid isCompatible
    by (cases "client w") (auto simp: isTerminalContextEnabled_def getApiVersions_def list_ex_iff)
  have p: "parseVersion ''0.10.0'' = Some (0, 10, 0)"
    by (simp add: parseVersion_def parseNumber_def digitValue_def)
  have v: "plainVersionValid version \<and> plainVersionGte version ''0.10.0''
           \<longleftrightarrow> (\<exists>t. parseVersion version = Some t \<and> (0, 10, 0) \<le> t)" for version
    by (cases "parseVersion version") (simp_all add: plainVersionValid_def plainVersionGte_def p)
  show "isTerminalContextEnabled plainVersionValid plainVersionGte w
      \<longleftrightarrow> (\<exists>c. client w = Some c
               \<and> (\<exists>version \<in> set c. \<exists>t. parseVersion version = Some t \<and> (0, 10, 0) \<le> t))"
    unfolding g[of plainVersionValid plainVersionGte] v by (rule refl)
next
  show "client w = Some c \<and> ''0.8.0'' \<in> set c \<longrightarrow>
        (\<forall>op. \<exists>w'. hostOp w op = Inr w')
        \<and> (''0.10.0'' \<notin> set c \<longrightarrow>
             (kind context = ''terminal'' \<longrightarrow>
                addRelevantContext w context
                  = Inr (emit w [Info ''Adding relevant context'' (ArgContext context)]))
             \<and> executeCommand w ''explain-terminal''
                  = Inr (emit w [Info ''Executing command'' (ArgCommand ''explain-terminal'')]))
        \<and> (''0.10.0'' \<in> set c \<longrightarrow>
             (kind context = ''terminal'' \<longrightarrow>
                addRelevantContext w context
                  = Inr (emit w [Info ''Adding relevant context'' (ArgContext context),
                                 Call ''0.10.0'' (AddRelevantContext context)]))
             \<and> executeCommand w ''explain-terminal''
                  = Inr (emit w [Info ''Executing command'' (ArgCommand ''explain-terminal''),
                                 Call ''0.10.0'' (ExecuteCommand ''explain-terminal'')]))"
  proof (intro impI conjI allI)
    fix op assume "client w = Some c \<and> ''0.8.0'' \<in> set c"
    then show "\<exists>w'. hostOp w op = Inr w'"
      using direct_same_calls[of c w op] by blast
  qed (simp_all add: addRelevantContext_def executeCommand_def optional_call_def)
qed

theorem capability_gating_witness:
  "isTerminalContextEnabled plainVersionValid plainVersionGte (handleWith [''0.8.0'', ''0.11.0''])
   \<and> \<not> isTerminalContextEnabled plainVersionValid plainVersionGte (handleWith [''0.8.0'', ''latest''])
   \<and> client (handleWith [''0.8.0'', ''0.11.0'']) = Some [''0.8.0'', ''0.11.0'']
   \<and> ''0.8.0'' \<in> set [''0.8.0'', ''0.11.0'']
   \<and> ''0.10.0'' \<notin> set [''0.8.0'', ''0.11.0'']
   \<and> kind terminalContext = ''terminal''
   \<and> addRelevantContext (handleWith [''0.8.0'', ''0.11.0'']) terminalContext
       = Inr (emit (handleWith [''0.8.0'', ''0.11.0''])
               [Info ''Adding relevant context'' (ArgContext terminalContext)])
   \<and> (\<exists>w'. hostOp (handleWith [''0.8.0'', ''0.11.0'']) (SetActiveSelectionOp fileContext) = Inr w')
   \<and> client (handleWith [''0.8.0'', ''0.10.0'']) = Some [''0.8.0'', ''0.10.0'']
   \<and> ''0.10.0'' \<in> set [''0.8.0'', ''0.10.0'']
   \<and> executeCommand (handleWith [''0.8.0'', ''0.10.0'']) ''explain-terminal''
       = Inr (emit (handleWith [''0.8.0'', ''0.10.0''])
               [Info ''Executing command'' (ArgCommand ''explain-terminal''),
                Call ''0.10.0'' (ExecuteCommand ''explain-terminal'')])"
proof -
  have v: "plainVersionValid ''0.11.0''" "plainVersionGte ''0.11.0'' ''0.10.0''"
    "\<not> plainVersionGte ''0.8.0'' ''0.10.0''" "\<not> plainVersionValid ''latest''"
    by (simp_all add: plainVersionValid_def plainVersionGte_def parseVersion_def parseNumber_def
        digitValue_def)
  have c1: "client (handleWith [''0.8.0'', ''0.11.0'']) = Some [''0.8.0'', ''0.11.0'']"
    and c2: "client (handleWith [''0.8.0'', ''latest'']) = Some [''0.8.0'', ''latest'']"
    and c3: "client (handleWith [''0.8.0'', ''0.10.0'']) = Some [''0.8.0'', ''0.10.0'']"
    by (simp_all add: handleWith_def)
  have k: "kind terminalContext = ''terminal''" by (simp add: terminalContext_def)
  note g1 = capability_gating[of plainVersionValid plainVersionGte "handleWith [''0.8.0'', ''0.11.0'']"
      "[''0.8.0'', ''0.11.0'']" terminalContext]
  note g2 = capability_gating[of plainVersionValid plainVersionGte "handleWith [''0.8.0'', ''latest'']"
      "[''0.8.0'', ''latest'']" terminalContext]
  note g3 = capability_gating[of plainVersionValid plainVersionGte "handleWith [''0.8.0'', ''0.10.0'']"
      "[''0.8.0'', ''0.10.0'']" terminalContext]
  have e1: "isTerminalContextEnabled plainVersionValid plainVersionGte (handleWith [''0.8.0'', ''0.11.0''])"
    using g1[THEN conjunct1] c1 v by auto
  have e2: "\<not> isTerminalContextEnabled plainVersionValid plainVersionGte (handleWith [''0.8.0'', ''latest''])"
    using g2[THEN conjunct1] c2 v by auto
  have m1: "''0.8.0'' \<in> set [''0.8.0'', ''0.11.0'']" "''0.10.0'' \<notin> set [''0.8.0'', ''0.11.0'']"
    and m3: "''0.8.0'' \<in> set [''0.8.0'', ''0.10.0'']" "''0.10.0'' \<in> set [''0.8.0'', ''0.10.0'']"
    by simp_all
  note h1 = g1[THEN conjunct2, THEN conjunct2, rule_format, OF conjI, OF c1 m1(1)]
  note h3 = g3[THEN conjunct2, THEN conjunct2, rule_format, OF conjI, OF c3 m3(1)]
  have a1: "addRelevantContext (handleWith [''0.8.0'', ''0.11.0'']) terminalContext
       = Inr (emit (handleWith [''0.8.0'', ''0.11.0''])
               [Info ''Adding relevant context'' (ArgContext terminalContext)])"
    using h1 m1(2) k by blast
  have a2: "\<exists>w'. hostOp (handleWith [''0.8.0'', ''0.11.0'']) (SetActiveSelectionOp fileContext) = Inr w'"
    using h1 by blast
  have a3: "executeCommand (handleWith [''0.8.0'', ''0.10.0'']) ''explain-terminal''
       = Inr (emit (handleWith [''0.8.0'', ''0.10.0''])
               [Info ''Executing command'' (ArgCommand ''explain-terminal''),
                Call ''0.10.0'' (ExecuteCommand ''explain-terminal'')])"
    using h3 m3(2) by blast
  show ?thesis using e1 e2 c1 c3 m1 m3(2) k a1 a2 a3 by blast
qed

subsection \<open>Listing the symbols of the active document\<close>

lemma queueOrder_append:
  "queueOrder u (xs @ cs) = map (symbolRoot u) xs @ queueOrder u (cs @ concat (map symbolChildren xs))"
proof (induction xs arbitrary: cs)
  case Nil
  then show ?case by simp
next
  case (Cons x xs)
  have "queueOrder u ((x # xs) @ cs) = symbolRoot u x # queueOrder u (xs @ (cs @ symbolChildren x))"
    by simp
  also have "\<dots> = symbolRoot u x # map (symbolRoot u) xs
                    @ queueOrder u ((cs @ symbolChildren x) @ concat (map symbolChildren xs))"
    by (simp only: Cons.IH[of "cs @ symbolChildren x"] append_Cons)
  finally show ?case by simp
qed

lemma queueOrder_breadthFirst: "queueOrder u level = breadthFirst u level"
proof (induction u level rule: breadthFirst.induct)
  case (1 u level)
  show ?case
  proof (cases "level = []")
    case True
    then show ?thesis by (subst breadthFirst.simps) simp
  next
    case False
    have "queueOrder u level = map (symbolRoot u) level @ queueOrder u (concat (map symbolChildren level))"
      using queueOrder_append[of u level "[]"] by simp
    also have "\<dots> = map (symbolRoot u) level @ breadthFirst u (concat (map symbolChildren level))"
      using 1[OF False] by simp
    also have "\<dots> = breadthFirst u level"
      using False by (subst (2) breadthFirst.simps) simp
    finally show ?thesis .
  qed
qed

text \<open>
  On objects whose children the loop reads, the loop gives the breadth-first flattening
  of the tree, cut at the limit.
\<close>

lemma bfsLoop_queueOrder:
  "int (length result) \<le> limit \<Longrightarrow> list_all readable queue \<Longrightarrow>
   bfsLoop u limit queue result = take (nat limit) (result @ queueOrder u queue)"
proof (induction u limit queue result rule: bfsLoop.induct)
  case (1 u limit result)
  then show ?case by simp
next
  case (2 u limit current queue result)
  have rd: "list_all readable (queue @ map DS (children current))"
    using 2(3) by (auto simp: list_all_iff)
  show ?case
  proof (cases "int (length result) < limit")
    case False
    with 2(2) have "nat limit = length result" by simp
    then show ?thesis using False by simp
  next
    case True
    show ?thesis
    proof (cases "int (length (result @ [convertSymbol u current])) \<ge> limit")
      case full: True
      then have "nat limit = Suc (length result)" using True by simp
      then show ?thesis using True full by simp
    next
      case notfull: False
      then have le: "int (length (result @ [convertSymbol u current])) \<le> limit" by simp
      from 2(1)[OF True refl notfull le rd] show ?thesis using True notfull by simp
    qed
  qed
next
  case (3 u limit current cs queue result)
  have cs: "cs = []" and rd: "list_all readable queue" using 3(3) by simp_all
  show ?case
  proof (cases "int (length result) < limit")
    case False
    with 3(2) have "nat limit = length result" by simp
    then show ?thesis using False by simp
  next
    case True
    show ?thesis
    proof (cases "int (length (result @ [current])) \<ge> limit")
      case full: True
      then have "nat limit = Suc (length result)" using True by simp
      then show ?thesis using True full by simp
    next
      case notfull: False
      then have le: "int (length (result @ [current])) \<le> limit" by simp
      from 3(1)[OF True refl notfull le rd] show ?thesis using True notfull cs by simp
    qed
  qed
qed

text \<open>
  On objects that are no instances of \<open>DocumentSymbol\<close>, the loop gives the objects
  themselves, cut at the limit, whatever children they carry.
\<close>

lemma bfsLoop_top_level:
  "int (length result) \<le> limit \<Longrightarrow> list_all (\<lambda>s. \<not> isDocumentSymbol s) queue \<Longrightarrow>
   bfsLoop u limit queue result = take (nat limit) (result @ map (symbolRoot u) queue)"
proof (induction u limit queue result rule: bfsLoop.induct)
  case (1 u limit result)
  then show ?case by simp
next
  case (2 u limit current queue result)
  then show ?case by simp
next
  case (3 u limit current cs queue result)
  have rd: "list_all (\<lambda>s. \<not> isDocumentSymbol s) queue" using 3(3) by simp
  show ?case
  proof (cases "int (length result) < limit")
    case False
    with 3(2) have "nat limit = length result" by simp
    then show ?thesis using False by simp
  next
    case True
    show ?thesis
    proof (cases "int (length (result @ [current])) \<ge> limit")
      case full: True
      then have "nat limit = Suc (length result)" using True by simp
      then show ?thesis using True full by simp
    next
      case notfull: False
      then have le: "int (length (result @ [current])) \<le> limit" by simp
      from 3(1)[OF True refl notfull le rd] show ?thesis using True notfull by simp
    qed
  qed
qed

lemma effectiveLimit_pos: "0 < effectiveLimit limit0"
  by (auto simp: effectiveLimit_def split: option.splits)

lemma getDocumentSymbols_breadthFirst:
  assumes "executeDocumentSymbolProvider host u = Inr symbols" and "0 \<le> limit"
    and "list_all readable (case symbols of None \<Rightarrow> [] | Some ss \<Rightarrow> ss)"
  shows "getDocumentSymbols host u limit
         = Inr (take (nat limit) (breadthFirst u (case symbols of None \<Rightarrow> [] | Some ss \<Rightarrow> ss)))"
  using assms bfsLoop_queueOrder[of "[]" limit "case symbols of None \<Rightarrow> [] | Some ss \<Rightarrow> ss" u]
  by (simp add: getDocumentSymbols_def queueOrder_breadthFirst)

text \<open>
  With an empty query and an active document whose symbol provider resolves to objects
  whose children the loop reads, \<open>listSymbols\<close> returns the first \<open>limit\<close> symbols of the
  breadth-first flattening of the symbol forest, in that order, and executes the document
  symbol provider only.
\<close>

lemma listSymbols_empty_query:
  assumes "activeTextEditor host = Some documentUri"
    and "executeDocumentSymbolProvider host documentUri = Inr symbols"
    and "list_all readable (case symbols of None \<Rightarrow> [] | Some ss \<Rightarrow> ss)"
  shows "listSymbols host [] limit0
         = (map (symbolToItem host (localUriToChatPanelFilepath host documentUri))
              (take (nat (effectiveLimit limit0))
                 (breadthFirst documentUri (case symbols of None \<Rightarrow> [] | Some ss \<Rightarrow> ss))),
            [''vscode.executeDocumentSymbolProvider''])"
proof -
  have p: "0 \<le> effectiveLimit limit0" using effectiveLimit_pos[of limit0] by simp
  have g: "getDocumentSymbols host documentUri (effectiveLimit limit0)
         = Inr (take (nat (effectiveLimit limit0))
                  (breadthFirst documentUri (case symbols of None \<Rightarrow> [] | Some ss \<Rightarrow> ss)))"
    by (rule getDocumentSymbols_breadthFirst[OF assms(2) p assms(3)])
  show ?thesis by (simp add: listSymbols_def assms(1) g Let_def)
qed

text \<open>
  With an empty query and objects as the editor delivers them, \<open>listSymbols\<close> returns the
  first \<open>limit\<close> top-level symbols.
\<close>

lemma listSymbols_empty_query_top_level:
  assumes "activeTextEditor host = Some documentUri"
    and "executeDocumentSymbolProvider host documentUri = Inr (Some symbols)"
    and "list_all (\<lambda>s. \<not> isDocumentSymbol s) symbols"
  shows "listSymbols host [] limit0
         = (map (symbolToItem host (localUriToChatPanelFilepath host documentUri))
              (take (nat (effectiveLimit limit0)) (map (symbolRoot documentUri) symbols)),
            [''vscode.executeDocumentSymbolProvider''])"
proof -
  have p: "int (length ([]::SymbolInformation list)) \<le> effectiveLimit limit0"
    using effectiveLimit_pos[of limit0] by simp
  have g: "getDocumentSymbols host documentUri (effectiveLimit limit0)
         = Inr (take (nat (effectiveLimit limit0)) (map (symbolRoot documentUri) symbols))"
    using bfsLoop_top_level[OF p assms(3), of documentUri]
    by (simp add: getDocumentSymbols_def assms(2))
  show ?thesis by (simp add: listSymbols_def assms(1) g Let_def)
qed

lemma listSymbols_empty_query_example:
  "map label (fst (listSymbols (flatHost 8) [] (Some 5))) = [''0'', ''1'', ''2'', ''3'', ''4'']
   \<and> snd (listSymbols (flatHost 8) [] (Some 5)) = [''vscode.executeDocumentSymbolProvider'']"
  by code_simp

text \<open>
  C5. The claim has \<open>listSymbols\<close>, for an empty query, return the first \<open>limit\<close> symbols
  of a breadth-first flattening of the symbol tree of the active document. The loop of
  \<open>getDocumentSymbols\<close> ("BFS to get all symbols up to the limit") queues the children
  of an object only when \<open>current instanceof DocumentSymbol\<close> holds. The editor
  delivers the tree as objects of a subclass of \<open>SymbolInformation\<close> that carry their
  children and are no instances of \<open>DocumentSymbol\<close>, so the loop never descends: for
  the tree \<open>A[a1[x], a2], B[b1]\<close> and limit 4 the result is \<open>A, B\<close>, where the first
  four symbols in breadth-first order are \<open>A, B, a1, a2\<close>. Delivered as instances of
  \<open>DocumentSymbol\<close>, the same tree gives those four.
\<close>

theorem listSymbols_leaves_out_children:
  "map label (fst (listSymbols (symbolHost nestedTree) [] (Some 4))) = [''A'', ''B'']
   \<and> map name (take 4 (breadthFirst ''file.ts'' nestedTree)) = [''A'', ''B'', ''a1'', ''a2'']
   \<and> map label (fst (listSymbols (symbolHost nestedDocumentSymbols) [] (Some 4)))
       = [''A'', ''B'', ''a1'', ''a2'']"
  by code_simp

subsection \<open>Merging local and workspace symbols\<close>

lemma uniqueLoop_firstOccurrences:
  "uniqueLoop key xs seen acc = acc @ firstOccurrences key (filter (\<lambda>x. key x \<notin> seen) xs)"
proof (induction xs arbitrary: seen acc)
  case Nil
  then show ?case by simp
next
  case (Cons x xs)
  show ?case
  proof (cases "key x \<in> seen")
    case True
    then show ?thesis using Cons.IH[of seen acc] by simp
  next
    case False
    have g: "filter (\<lambda>y. key y \<notin> insert (key x) seen) xs
             = filter (\<lambda>y. key y \<noteq> key x) (filter (\<lambda>y. key y \<notin> seen) xs)"
      by (induction xs) auto
    have "uniqueLoop key (x # xs) seen acc = uniqueLoop key xs (insert (key x) seen) (acc @ [x])"
      using False by simp
    also have "\<dots> = (acc @ [x])
          @ firstOccurrences key (filter (\<lambda>y. key y \<notin> insert (key x) seen) xs)"
      by (rule Cons.IH)
    also have "\<dots> = acc @ x # firstOccurrences key
          (filter (\<lambda>y. key y \<noteq> key x) (filter (\<lambda>y. key y \<notin> seen) xs))"
      by (simp only: g append_assoc append_Cons append_Nil)
    also have "\<dots> = acc @ firstOccurrences key (filter (\<lambda>y. key y \<notin> seen) (x # xs))"
      using False by (simp del: filter_filter)
    finally show ?thesis .
  qed
qed

lemma insertSorted_insort_key:
  assumes "\<And>a b. cmp a b \<le> 0 \<longleftrightarrow> f a \<le> f b"
  shows "insertSorted cmp x xs = insort_key f x xs"
  by (induction xs) (simp_all add: assms)

lemma sortBy_sort_key:
  assumes "\<And>a b. cmp a b \<le> 0 \<longleftrightarrow> f a \<le> f b"
  shows "sortBy cmp xs = sort_key f xs"
proof -
  have "insertSorted cmp = insort_key f"
    using insertSorted_insort_key[OF assms] by (intro ext) 
  then show ?thesis by (simp add: sortBy_def sort_key_def)
qed

lemma compareItems_rank: "compareItems query a b \<le> 0 \<longleftrightarrow> rank query a \<le> rank query b"
  by (auto simp: compareItems_def rank_def score_def Let_def)

lemma rank_le_rankedBefore: "rank query a \<le> rank query b \<longleftrightarrow> rankedBefore query a b"
  by (auto simp: rank_def rankedBefore_def)

lemma sorted_rankedBefore:
  "sorted (map (rank query) xs) \<Longrightarrow> sorted_wrt (rankedBefore query) xs"
  by (simp add: sorted_wrt_map rank_le_rankedBefore sorted_wrt_iff_nth_less)

lemma sameRank_rank: "sameRank query s n = (\<lambda>item. rank query item = (- s, n))"
  by (auto simp: sameRank_def rank_def fun_eq_iff)

lemma digitChar_in: "d < 10 \<Longrightarrow> digitChar d \<in> set ''0123456789''"
  unfolding digitChar_def by (rule nth_mem) simp

lemma numberToString_digits: "set (numberToString n) \<subseteq> set ''0123456789''"
proof (induction n rule: numberToString.induct)
  case (1 n)
  show ?case
  proof (cases "n < 10")
    case True
    then show ?thesis using digitChar_in[of n] by (subst numberToString.simps) simp
  next
    case False
    have "n mod 10 < 10" by simp
    then have "digitChar (n mod 10) \<in> set ''0123456789''" by (rule digitChar_in)
    then show ?thesis using False 1[OF False] by (subst numberToString.simps) simp
  qed
qed

lemma numberToString_no_dash: "CHR ''-'' \<notin> set (numberToString n)"
  using numberToString_digits[of n] by auto

lemma split_unique:
  "c \<notin> set xs \<Longrightarrow> c \<notin> set ys \<Longrightarrow> xs @ c # r1 = ys @ c # r2 \<Longrightarrow> xs = ys \<and> r1 = r2"
proof (induction xs arbitrary: ys)
  case Nil
  then show ?case by (cases ys) auto
next
  case (Cons x xs)
  then show ?case by (cases ys) auto
qed

lemma itemKey_foo_Foo:
  assumes "label a = ''foo''" and "label b = ''Foo''"
  shows "itemKey f a \<noteq> itemKey f b"
proof
  assume eq: "itemKey f a = itemKey f b"
  define ea where "ea = rev (numberToString (line_end (range a)))"
  define eb where "eb = rev (numberToString (line_end (range b)))"
  define sa where "sa = rev (numberToString (line_start (range a)))"
  define sb where "sb = rev (numberToString (line_start (range b)))"
  have nd: "CHR ''-'' \<notin> set ea" "CHR ''-'' \<notin> set eb" "CHR ''-'' \<notin> set sa" "CHR ''-'' \<notin> set sb"
    by (simp_all add: ea_def eb_def sa_def sb_def numberToString_no_dash)
  have "rev (itemKey f a) = rev (itemKey f b)" using eq by simp
  then have 1: "ea @ CHR ''-'' # (sa @ CHR ''-'' # (''oof'' @ CHR ''-'' # rev (f (filepath a))))
              = eb @ CHR ''-'' # (sb @ CHR ''-'' # (''ooF'' @ CHR ''-'' # rev (f (filepath b))))"
    by (simp add: itemKey_def assms ea_def eb_def sa_def sb_def)
  from split_unique[OF nd(1) nd(2) 1]
  have 2: "sa @ CHR ''-'' # (''oof'' @ CHR ''-'' # rev (f (filepath a)))
         = sb @ CHR ''-'' # (''ooF'' @ CHR ''-'' # rev (f (filepath b)))"
    by simp
  from split_unique[OF nd(3) nd(4) 2] show False by simp
qed

lemma toLowerCase_foo: "toLowerCase ''foo'' = ''foo''" "toLowerCase ''Foo'' = ''foo''"
  by (simp_all add: toLowerCase_def lowerChar_def)

lemma mergeResults_foo_Foo:
  assumes "label a = ''foo''" and "label b = ''Foo''" and "2 \<le> limit"
  shows "mergeResults f [a] [b] ''foo'' limit = [a, b]"
proof -
  have k: "itemKey f b \<noteq> itemKey f a" using itemKey_foo_Foo[OF assms(1,2), of f] by simp
  have u: "uniqueLoop (itemKey f) ([a] @ [b]) {} [] = [a, b]" using k by simp
  have c: "compareItems ''foo'' a b \<le> 0"
    by (simp add: compareItems_def getMatchScore_def assms toLowerCase_foo Let_def)
  have s: "sortBy (compareItems ''foo'') [a, b] = [a, b]" using c by (simp add: sortBy_def)
  have t: "take (nat limit) [a, b] = [a, b]" using assms(3) by simp
  show ?thesis unfolding mergeResults_def Let_def u s t by (rule refl)
qed

lemma getMatchScore_levels:
  "(getMatchScore query lbl = 3 \<longleftrightarrow> toLowerCase lbl = toLowerCase query)
   \<and> (getMatchScore query lbl = 2 \<longleftrightarrow>
        toLowerCase lbl \<noteq> toLowerCase query \<and> startsWith (toLowerCase lbl) (toLowerCase query))
   \<and> (getMatchScore query lbl = 1 \<longleftrightarrow>
        \<not> startsWith (toLowerCase lbl) (toLowerCase query)
        \<and> includesStr (toLowerCase lbl) (toLowerCase query))
   \<and> (getMatchScore query lbl = 0 \<longleftrightarrow> \<not> includesStr (toLowerCase lbl) (toLowerCase query))"
  by (auto simp: getMatchScore_def Let_def startsWith_def includesStr_def)

text \<open>
  What \<open>mergeResults\<close> computes: it takes the local items followed by the workspace
  items, keeps the first item of every key string, orders them by match score, highest
  first, and by label length, shortest first, among equal scores (items of equal score
  and label length keep their order, as the sort is stable), and returns the first
  \<open>limit\<close> items. The score is 3 for a case-insensitive exact match, 2 for a prefix,
  1 for a substring and 0 otherwise. With a local \<open>foo\<close> and a workspace \<open>Foo\<close>,
  both are returned, \<open>foo\<close> first. With a non-empty query, \<open>listSymbols\<close> returns
  what \<open>mergeResults\<close> returns for the filtered local symbols and the workspace
  symbols.
\<close>

lemma mergeResults_ranked:
  "(\<exists>sorted.
      mergeResults fpString local workspace query limit = take (nat limit) sorted
      \<and> mset sorted = mset (firstOccurrences (itemKey fpString) (local @ workspace))
      \<and> sorted_wrt (rankedBefore query) sorted
      \<and> (\<forall>s n. filter (sameRank query s n) sorted
                = filter (sameRank query s n) (firstOccurrences (itemKey fpString) (local @ workspace))))
   \<and> ((getMatchScore query lbl = 3 \<longleftrightarrow> toLowerCase lbl = toLowerCase query)
      \<and> (getMatchScore query lbl = 2 \<longleftrightarrow>
           toLowerCase lbl \<noteq> toLowerCase query \<and> startsWith (toLowerCase lbl) (toLowerCase query))
      \<and> (getMatchScore query lbl = 1 \<longleftrightarrow>
           \<not> startsWith (toLowerCase lbl) (toLowerCase query)
           \<and> includesStr (toLowerCase lbl) (toLowerCase query))
      \<and> (getMatchScore query lbl = 0 \<longleftrightarrow> \<not> includesStr (toLowerCase lbl) (toLowerCase query)))
   \<and> (label a = ''foo'' \<and> label b = ''Foo'' \<and> 2 \<le> limit
        \<longrightarrow> mergeResults fpString [a] [b] ''foo'' limit = [a, b])
   \<and> (activeTextEditor host = Some documentUri
        \<and> getDocumentSymbols host documentUri (effectiveLimit limit0) = Inr defaultSymbols
        \<and> query \<noteq> []
        \<longrightarrow> fst (listSymbols host query limit0)
            = mergeResults (filepathToString host)
                (map (symbolToItem host (localUriToChatPanelFilepath host documentUri))
                   (filterSymbols defaultSymbols query))
                (getWorkspaceSymbols host query) query (effectiveLimit limit0))"
proof -
  define D where "D = firstOccurrences (itemKey fpString) (local @ workspace)"
  define S where "S = sort_key (rank query) D"
  have u: "uniqueLoop (itemKey fpString) (local @ workspace) {} [] = D"
    by (simp add: uniqueLoop_firstOccurrences D_def)
  have so: "sortBy (compareItems query) D = S"
    unfolding S_def by (rule sortBy_sort_key) (rule compareItems_rank)
  have m: "mergeResults fpString local workspace query limit = take (nat limit) S"
    by (simp add: mergeResults_def Let_def u so)
  have ms: "mset S = mset D" by (simp add: S_def)
  have sw: "sorted_wrt (rankedBefore query) S"
    by (rule sorted_rankedBefore) (simp add: S_def)
  have st: "filter (sameRank query s n) S = filter (sameRank query s n) D" for s n
    unfolding S_def sameRank_rank by (rule sort_key_stable)
  have part1: "\<exists>sorted.
      mergeResults fpString local workspace query limit = take (nat limit) sorted
      \<and> mset sorted = mset (firstOccurrences (itemKey fpString) (local @ workspace))
      \<and> sorted_wrt (rankedBefore query) sorted
      \<and> (\<forall>s n. filter (sameRank query s n) sorted
                = filter (sameRank query s n) (firstOccurrences (itemKey fpString) (local @ workspace)))"
    using m ms sw st unfolding D_def by blast
  have part3: "label a = ''foo'' \<and> label b = ''Foo'' \<and> 2 \<le> limit
        \<longrightarrow> mergeResults fpString [a] [b] ''foo'' limit = [a, b]"
    using mergeResults_foo_Foo[of a b limit fpString] by blast
  have part4: "activeTextEditor host = Some documentUri
        \<and> getDocumentSymbols host documentUri (effectiveLimit limit0) = Inr defaultSymbols
        \<and> query \<noteq> []
        \<longrightarrow> fst (listSymbols host query limit0)
            = mergeResults (filepathToString host)
                (map (symbolToItem host (localUriToChatPanelFilepath host documentUri))
                   (filterSymbols defaultSymbols query))
                (getWorkspaceSymbols host query) query (effectiveLimit limit0)"
    by (simp add: listSymbols_def Let_def)
  show ?thesis using part1 getMatchScore_levels[of query lbl] part3 part4 by blast
qed

lemma mergeResults_ranked_example:
  "label (namedItem ''a.ts'' ''foo'') = ''foo'' \<and> label (namedItem ''b.ts'' ''Foo'') = ''Foo''
   \<and> (2::int) \<le> 20
   \<and> mergeResults (\<lambda>fp. fp) [namedItem ''a.ts'' ''foo''] [namedItem ''b.ts'' ''Foo''] ''foo'' 20
       = [namedItem ''a.ts'' ''foo'', namedItem ''b.ts'' ''Foo'']
   \<and> map label (mergeResults (\<lambda>fp. fp)
        [namedItem ''a.ts'' ''foobar'', namedItem ''a.ts'' ''foo'', namedItem ''a.ts'' ''xfoo'']
        [namedItem ''a.ts'' ''foo'', namedItem ''b.ts'' ''Foo'', namedItem ''b.ts'' ''bar'',
         namedItem ''b.ts'' ''food'']
        ''foo'' 5)
       = [''foo'', ''Foo'', ''food'', ''foobar'', ''xfoo'']"
proof -
  have l: "label (namedItem ''a.ts'' ''foo'') = ''foo''" "label (namedItem ''b.ts'' ''Foo'') = ''Foo''"
    by (simp_all add: namedItem_def)
  have two: "(2::int) \<le> 20" by simp
  have m: "mergeResults (\<lambda>fp. fp) [namedItem ''a.ts'' ''foo''] [namedItem ''b.ts'' ''Foo''] ''foo'' 20
       = [namedItem ''a.ts'' ''foo'', namedItem ''b.ts'' ''Foo'']"
    using mergeResults_ranked[of "\<lambda>fp. fp" "[]" "[]" "[]" 20 "[]"
        "namedItem ''a.ts'' ''foo''" "namedItem ''b.ts'' ''Foo''" "flatHost 0" "[]" None "[]"] l two
    by blast
  have e: "map label (mergeResults (\<lambda>fp. fp)
        [namedItem ''a.ts'' ''foobar'', namedItem ''a.ts'' ''foo'', namedItem ''a.ts'' ''xfoo'']
        [namedItem ''a.ts'' ''foo'', namedItem ''b.ts'' ''Foo'', namedItem ''b.ts'' ''bar'',
         namedItem ''b.ts'' ''food'']
        ''foo'' 5)
       = [''foo'', ''Foo'', ''food'', ''foobar'', ''xfoo'']"
    by code_simp
  show ?thesis using l two m e by blast
qed

text \<open>
  C6. The claim has the items deduplicated by the composite key (file path, label, range
  start, range end). The code compares the strings
  \<open>`${item.filepath}-${item.label}-${item.range.start}-${item.range.end}`\<close>, and items
  that differ in these fields can have the same string. A \<open>Filepath\<close> that is an
  object prints as \<open>[object Object]\<close>, so that a symbol \<open>foo\<close> at lines 1 to 2 of
  \<open>a.ts\<close> and another \<open>foo\<close> at lines 1 to 2 of \<open>b.ts\<close> have one key, and the
  second is dropped. Were a \<open>Filepath\<close> printed as its path, the path \<open>a-b\<close> with
  the label \<open>c\<close> and the path \<open>a\<close> with the label \<open>b-c\<close> would have one key.
\<close>

theorem mergeResults_drops_distinct_item:
  "mergeResults (\<lambda>fp. ''[object Object]'') [namedItem ''a.ts'' ''foo''] [namedItem ''b.ts'' ''foo'']
     ''foo'' 20
   = [namedItem ''a.ts'' ''foo'']
   \<and> mergeResults (\<lambda>fp. fp) [namedItem ''a-b'' ''c''] [namedItem ''a'' ''b-c''] ''c'' 20
   = [namedItem ''a-b'' ''c'']"
  by code_simp

subsection \<open>Symbol lookup\<close>

lemma positionFrom_line_ge: "l \<le> line (positionFrom lines l off)"
proof (induction lines l off rule: positionFrom.induct)
  case (3 ln v va l off)
  then show ?case by (cases "off \<le> length ln") auto
qed simp_all

lemma lineOffset_Cons_Suc:
  "lineOffset (ln # rest) (Suc k) = length ln + 1 + lineOffset rest k"
  by (simp add: lineOffset_def)

lemma positionFrom_line:
  "k < length lines \<Longrightarrow> lineOffset lines k \<le> off \<Longrightarrow> l + k \<le> line (positionFrom lines l off)"
proof (induction lines l off arbitrary: k rule: positionFrom.induct)
  case (1 l off)
  then show ?case by simp
next
  case (2 ln l off)
  then show ?case by simp
next
  case (3 ln v va l off)
  show ?case
  proof (cases k)
    case 0
    then show ?thesis using positionFrom_line_ge[of l "ln # v # va" off] by simp
  next
    case (Suc k')
    have lo: "length ln + 1 + lineOffset (v # va) k' \<le> off"
      using "3.prems"(2) Suc by (simp only: lineOffset_Cons_Suc)
    then have big: "\<not> off \<le> length ln" by simp
    have k': "k' < length (v # va)" using "3.prems"(1) Suc by simp
    have "lineOffset (v # va) k' \<le> off - length ln - 1" using lo by simp
    from "3.IH"[OF big k' this] show ?thesis using big Suc by simp
  qed
qed

lemma positionAt_line:
  assumes "n < lineCount document" and "offsetAt document \<lparr>line = n, character = 0\<rparr> \<le> off"
  shows "n \<le> line (positionAt document off)"
proof -
  have "lineOffset (splitLines (doc_text document)) n \<le> off"
    using assms by (simp add: offsetAt_def lineCount_def Let_def)
  from positionFrom_line[OF _ this, of 0] assms(1) show ?thesis
    by (simp add: positionAt_def lineCount_def)
qed

lemma offsetAt_beyond:
  "lineCount document \<le> line p \<Longrightarrow> offsetAt document p = length (doc_text document)"
  by (simp add: offsetAt_def lineCount_def Let_def)

lemma hint_window:
  defines "w \<equiv> \<lambda>document n. newRange n 0 (lineCount document) 0"
  shows "offsetAt document (start (w document n)) = offsetAt document \<lparr>line = n, character = 0\<rparr>"
    and "getText document (w document n)
         = drop (offsetAt document \<lparr>line = n, character = 0\<rparr>) (doc_text document)"
proof -
  let ?o = "offsetAt document \<lparr>line = n, character = 0\<rparr>"
  have e: "offsetAt document \<lparr>line = lineCount document, character = 0\<rparr> = length (doc_text document)"
    by (rule offsetAt_beyond) simp
  show s: "offsetAt document (start (w document n)) = ?o"
  proof (cases "n \<le> lineCount document")
    case True
    then show ?thesis by (auto simp: w_def newRange_def positionLe_def Let_def)
  next
    case False
    then have "?o = length (doc_text document)" by (intro offsetAt_beyond) simp
    then show ?thesis using False e by (auto simp: w_def newRange_def positionLe_def Let_def)
  qed
  have en: "offsetAt document (end' (w document n)) = length (doc_text document)"
  proof (cases "n \<le> lineCount document")
    case True
    then show ?thesis using e by (auto simp: w_def newRange_def positionLe_def Let_def)
  next
    case False
    then have "?o = length (doc_text document)" by (intro offsetAt_beyond) simp
    then show ?thesis using False by (auto simp: w_def newRange_def positionLe_def Let_def)
  qed
  show "getText document (w document n) = drop ?o (doc_text document)"
    by (simp add: getText_def Let_def s en)
qed

lemma makeSymbolInfo_source:
  "loc_position (source (makeSymbolInfo host document position location)) = position"
  by (cases location) (simp_all add: makeSymbolInfo_def)

lemma findSymbolFrom_source:
  "findSymbolFrom host symbol document body off i = Inr (Some info) \<Longrightarrow>
   \<exists>j\<ge>i. j + length symbol \<le> length body \<and> matchesAt symbol body j
        \<and> loc_position (source info) = positionAt document (off + j)"
proof (induction host symbol document body off i rule: findSymbolFrom.induct)
  case (1 host symbol document body off i)
  show ?case
  proof (cases "i + length symbol > length body")
    case True
    then show ?thesis using "1.prems" by (subst (asm) findSymbolFrom.simps) simp
  next
    case inside: False
    show ?thesis
    proof (cases "matchesAt symbol body i")
      case nomatch: False
      have "findSymbolFrom host symbol document body off (Suc i) = Inr (Some info)"
        using "1.prems" inside nomatch by (subst (asm) findSymbolFrom.simps) simp
      from "1.IH"(3)[OF inside nomatch this] show ?thesis
        by (meson Suc_leD)
    next
      case match: True
      let ?p = "positionAt document (off + i)"
      show ?thesis
      proof (cases "executeDefinitionProvider host (doc_uri document) ?p")
        case (Inl e)
        then show ?thesis using "1.prems" inside match
          by (subst (asm) findSymbolFrom.simps) (simp add: Let_def)
      next
        case (Inr r)
        show ?thesis
        proof (cases r)
          case None
          have "findSymbolFrom host symbol document body off (i + Suc (length symbol - 1)) = Inr (Some info)"
            using "1.prems" inside match Inr None
            by (subst (asm) findSymbolFrom.simps) (simp add: Let_def)
          from "1.IH"(1)[OF inside match refl refl Inr None this] show ?thesis
            by (meson le_add1 le_trans)
        next
          case (Some locs)
          show ?thesis
          proof (cases locs)
            case Nil
            have "findSymbolFrom host symbol document body off (i + Suc (length symbol - 1)) = Inr (Some info)"
              using "1.prems" inside match Inr Some Nil
              by (subst (asm) findSymbolFrom.simps) (simp add: Let_def)
            from "1.IH"(2)[OF inside match refl refl Inr Some Nil this] show ?thesis
              by (meson le_add1 le_trans)
          next
            case (Cons location rest)
            have "info = makeSymbolInfo host document ?p location"
              using "1.prems" inside match Inr Some Cons
              by (subst (asm) findSymbolFrom.simps) (simp add: Let_def)
            then have "loc_position (source info) = ?p" by (simp add: makeSymbolInfo_source)
            then show ?thesis using inside match by (intro exI[of _ i]) simp
          qed
        qed
      qed
    qed
  qed
qed

lemma findSymbolFrom_empty_content:
  "findSymbolFrom host symbol document [] off i \<noteq> Inr (Some info)"
proof
  assume "findSymbolFrom host symbol document [] off i = Inr (Some info)"
  from findSymbolFrom_source[OF this] obtain j where "j + length symbol \<le> length ([]::string)"
    and m: "matchesAt symbol [] j" by blast
  then have "j = 0" by simp
  with m show False by (simp add: matchesAt_def wordBoundary_def wordAt_def)
qed

lemma hintLoop_single:
  assumes "hint_filepath hint = Some fp" and "chatPanelFilepathToLocalUri host fp = Some u"
    and "openTextDocument host u = Inr document"
  shows "hintLoop host symbol [hint] = findInDocument host symbol document (hint_location hint)"
proof (cases "findInDocument host symbol document (hint_location hint)")
  case (Inl e)
  then show ?thesis using assms by simp
next
  case (Inr r)
  then show ?thesis using assms by (cases r) simp_all
qed

text \<open>
  C3, as the code has it. For a hint whose location converts to an empty range at line
  \<open>n\<close>: the text from the start of line \<open>n\<close> to the end of the document is searched
  first; a result found there lies on line \<open>n\<close> or later and is returned; when that
  search finds nothing, the whole document is searched ("Fallback to find in full
  content") and its result is returned. For an identifier and a single hint whose
  document opens, this is the result of \<open>lookupSymbol\<close>.
\<close>

theorem hinted_line_search_then_fallback:
  assumes "chatPanelLocationToVSCodeRange host loc = Some r" and "isEmpty r"
    and "line (start r) = n"
  shows "findInDocument host symbol document (Some loc)
         = (case findSymbolInContent host symbol document
                  (drop (offsetAt document \<lparr>line = n, character = 0\<rparr>) (doc_text document))
                  (offsetAt document \<lparr>line = n, character = 0\<rparr>) of
              Inl e \<Rightarrow> Inl e
            | Inr (Some info) \<Rightarrow> Inr (Some info)
            | Inr None \<Rightarrow> findSymbolInContent host symbol document (doc_text document) 0)
       \<and> (\<forall>info. findSymbolInContent host symbol document
                  (drop (offsetAt document \<lparr>line = n, character = 0\<rparr>) (doc_text document))
                  (offsetAt document \<lparr>line = n, character = 0\<rparr>) = Inr (Some info)
              \<longrightarrow> n \<le> line (loc_position (source info)))
       \<and> (isIdentifier symbol \<and> hint_filepath hint = Some fp
            \<and> chatPanelFilepathToLocalUri host fp = Some u
            \<and> openTextDocument host u = Inr document \<and> hint_location hint = Some loc
          \<longrightarrow> lookupSymbol host symbol (Some [hint]) = findInDocument host symbol document (Some loc))"
proof (intro conjI allI impI)
  let ?o = "offsetAt document \<lparr>line = n, character = 0\<rparr>"
  show "findInDocument host symbol document (Some loc)
         = (case findSymbolInContent host symbol document (drop ?o (doc_text document)) ?o of
              Inl e \<Rightarrow> Inl e
            | Inr (Some info) \<Rightarrow> Inr (Some info)
            | Inr None \<Rightarrow> findSymbolInContent host symbol document (doc_text document) 0)"
    using assms by (simp add: findInDocument_def Let_def hint_window)
next
  fix info
  let ?o = "offsetAt document \<lparr>line = n, character = 0\<rparr>"
  assume f: "findSymbolInContent host symbol document (drop ?o (doc_text document)) ?o
             = Inr (Some info)"
  show "n \<le> line (loc_position (source info))"
  proof (cases "n < lineCount document")
    case True
    from f have "findSymbolFrom host symbol document (drop ?o (doc_text document)) ?o 0
                 = Inr (Some info)"
      by (simp add: findSymbolInContent_def)
    from findSymbolFrom_source[OF this] obtain j
      where "loc_position (source info) = positionAt document (?o + j)" by blast
    then show ?thesis using positionAt_line[OF True, of "?o + j"] by simp
  next
    case False
    then have "?o = length (doc_text document)" by (intro offsetAt_beyond) simp
    then have "drop ?o (doc_text document) = []" by simp
    with f show ?thesis
      using findSymbolFrom_empty_content[of host symbol document ?o 0 info]
      by (simp add: findSymbolInContent_def)
  qed
next
  assume a: "isIdentifier symbol \<and> hint_filepath hint = Some fp
            \<and> chatPanelFilepathToLocalUri host fp = Some u
            \<and> openTextDocument host u = Inr document \<and> hint_location hint = Some loc"
  then have "hintLoop host symbol [hint] = findInDocument host symbol document (hint_location hint)"
    by (intro hintLoop_single) auto
  then show "lookupSymbol host symbol (Some [hint]) = findInDocument host symbol document (Some loc)"
    using a by (simp add: lookupSymbol_def)
qed

text \<open>
  C3 states that an occurrence before line \<open>n\<close> never yields the returned
  \<open>SymbolInfo\<close>. In the document \<open>x = 1 / y = 2\<close> with a hint at line 1, the lines
  from line 1 on do not hold \<open>x\<close>, the fallback searches the whole document, and the
  occurrence at line 0 is returned.
\<close>

theorem lookupSymbol_falls_back_before_hinted_line:
  "lookupSymbol (lookupHost False) ''x'' (Some [hintAtLine ''f.ts'' 1])
   = Inr (Some \<lparr>source = \<lparr>loc_filepath = ''f.ts'', loc_position = \<lparr>line = 0, character = 0\<rparr>\<rparr>,
                 target = \<lparr>rng_filepath = ''g.ts'',
                            rng_location = \<lparr>start = \<lparr>line = 7, character = 0\<rparr>,
                                             end' = \<lparr>line = 7, character = 1\<rparr>\<rparr>\<rparr>\<rparr>)"
  by code_simp

theorem hinted_line_search_then_fallback_witness:
  "chatPanelLocationToVSCodeRange (lookupHost False) (newRange 1 0 1 0) = Some (newRange 1 0 1 0)
   \<and> isEmpty (newRange 1 0 1 0) \<and> line (start (newRange 1 0 1 0)) = 1
   \<and> offsetAt twoLines \<lparr>line = 1, character = 0\<rparr> = 6
   \<and> findSymbolInContent (lookupHost False) ''y'' twoLines (drop 6 (doc_text twoLines)) 6
       = Inr (Some \<lparr>source = \<lparr>loc_filepath = ''f.ts'', loc_position = \<lparr>line = 1, character = 0\<rparr>\<rparr>,
                     target = \<lparr>rng_filepath = ''g.ts'',
                                rng_location = \<lparr>start = \<lparr>line = 7, character = 0\<rparr>,
                                                 end' = \<lparr>line = 7, character = 1\<rparr>\<rparr>\<rparr>\<rparr>)
   \<and> findInDocument (lookupHost False) ''y'' twoLines (Some (newRange 1 0 1 0))
       = Inr (Some \<lparr>source = \<lparr>loc_filepath = ''f.ts'', loc_position = \<lparr>line = 1, character = 0\<rparr>\<rparr>,
                     target = \<lparr>rng_filepath = ''g.ts'',
                                rng_location = \<lparr>start = \<lparr>line = 7, character = 0\<rparr>,
                                                 end' = \<lparr>line = 7, character = 1\<rparr>\<rparr>\<rparr>\<rparr>)
   \<and> findSymbolInContent (lookupHost False) ''x'' twoLines (drop 6 (doc_text twoLines)) 6 = Inr None
   \<and> findInDocument (lookupHost False) ''x'' twoLines (Some (newRange 1 0 1 0))
       = findSymbolInContent (lookupHost False) ''x'' twoLines (doc_text twoLines) 0"
proof -
  have c: "chatPanelLocationToVSCodeRange (lookupHost False) (newRange 1 0 1 0) = Some (newRange 1 0 1 0)"
    by (simp add: lookupHost_def)
  have e: "isEmpty (newRange 1 0 1 0)" by (simp add: isEmpty_def newRange_def positionLe_def Let_def)
  have l: "line (start (newRange 1 0 1 0)) = 1" by (simp add: newRange_def positionLe_def Let_def)
  have o: "offsetAt twoLines \<lparr>line = 1, character = 0\<rparr> = 6" by code_simp
  have y: "findSymbolInContent (lookupHost False) ''y'' twoLines (drop 6 (doc_text twoLines)) 6
       = Inr (Some \<lparr>source = \<lparr>loc_filepath = ''f.ts'', loc_position = \<lparr>line = 1, character = 0\<rparr>\<rparr>,
                     target = \<lparr>rng_filepath = ''g.ts'',
                                rng_location = \<lparr>start = \<lparr>line = 7, character = 0\<rparr>,
                                                 end' = \<lparr>line = 7, character = 1\<rparr>\<rparr>\<rparr>\<rparr>)"
    by code_simp
  have x: "findSymbolInContent (lookupHost False) ''x'' twoLines (drop 6 (doc_text twoLines)) 6 = Inr None"
    by code_simp
  note th = hinted_line_search_then_fallback[OF c e l, of _ twoLines, THEN conjunct1, unfolded o]
  have fy: "findInDocument (lookupHost False) ''y'' twoLines (Some (newRange 1 0 1 0))
       = Inr (Some \<lparr>source = \<lparr>loc_filepath = ''f.ts'', loc_position = \<lparr>line = 1, character = 0\<rparr>\<rparr>,
                     target = \<lparr>rng_filepath = ''g.ts'',
                                rng_location = \<lparr>start = \<lparr>line = 7, character = 0\<rparr>,
                                                 end' = \<lparr>line = 7, character = 1\<rparr>\<rparr>\<rparr>\<rparr>)"
    using th[of "''y''"] by (simp add: y)
  have fx: "findInDocument (lookupHost False) ''x'' twoLines (Some (newRange 1 0 1 0))
       = findSymbolInContent (lookupHost False) ''x'' twoLines (doc_text twoLines) 0"
    using th[of "''x''"] by (simp add: x)
  show ?thesis using c e l o y fy x fx by blast
qed

subsection \<open>Errors of symbol lookup\<close>

lemma lookupSymbol_invalid_name:
  "\<not> isIdentifier symbol \<Longrightarrow> lookupSymbol host symbol hints = Inr None"
  by (simp add: lookupSymbol_def)

lemma hintLoop_skips:
  assumes "hint_filepath hint = None
         \<or> (\<exists>fp. hint_filepath hint = Some fp \<and> chatPanelFilepathToLocalUri host fp = None)
         \<or> (\<exists>fp u e. hint_filepath hint = Some fp \<and> chatPanelFilepathToLocalUri host fp = Some u
                \<and> openTextDocument host u = Inl e)"
  shows "hintLoop host symbol (hint # hints) = hintLoop host symbol hints"
  using assms by auto

lemma findSymbolFrom_resolves:
  "\<forall>u p e. executeDefinitionProvider host u p \<noteq> Inl e \<Longrightarrow>
   \<exists>r. findSymbolFrom host symbol document body off i = Inr r"
proof (induction host symbol document body off i rule: findSymbolFrom.induct)
  case (1 host symbol document body off i)
  note ok = "1.prems"
  show ?case
  proof (cases "i + length symbol > length body")
    case True
    then show ?thesis by (subst findSymbolFrom.simps) simp
  next
    case inside: False
    show ?thesis
    proof (cases "matchesAt symbol body i")
      case nomatch: False
      from "1.IH"(3)[OF inside nomatch ok] show ?thesis
        using inside nomatch by (subst findSymbolFrom.simps) simp
    next
      case match: True
      let ?p = "positionAt document (off + i)"
      show ?thesis
      proof (cases "executeDefinitionProvider host (doc_uri document) ?p")
        case (Inl e)
        then show ?thesis using ok by blast
      next
        case (Inr r)
        show ?thesis
        proof (cases r)
          case None
          from "1.IH"(1)[OF inside match refl refl Inr None ok] show ?thesis
            using inside match Inr None by (subst findSymbolFrom.simps) (simp add: Let_def)
        next
          case (Some locs)
          show ?thesis
          proof (cases locs)
            case Nil
            from "1.IH"(2)[OF inside match refl refl Inr Some Nil ok] show ?thesis
              using inside match Inr Some Nil by (subst findSymbolFrom.simps) (simp add: Let_def)
          next
            case (Cons location rest)
            then show ?thesis
              using inside match Inr Some by (subst findSymbolFrom.simps) (simp add: Let_def)
          qed
        qed
      qed
    qed
  qed
qed

lemma findInDocument_resolves:
  assumes "\<forall>u p e. executeDefinitionProvider host u p \<noteq> Inl e"
  shows "\<exists>r. findInDocument host symbol document hintLocation = Inr r"
proof -
  have f: "\<exists>r. findSymbolInContent host symbol document body off = Inr r" for body off
    unfolding findSymbolInContent_def by (rule findSymbolFrom_resolves[OF assms])
  obtain r0 where r0: "findSymbolInContent host symbol document (doc_text document) 0 = Inr r0"
    using f by blast
  show ?thesis
  proof (cases hintLocation)
    case None
    then show ?thesis using r0 by (simp add: findInDocument_def)
  next
    case (Some loc)
    show ?thesis
    proof (cases "chatPanelLocationToVSCodeRange host loc")
      case None
      then show ?thesis using Some r0 by (simp add: findInDocument_def)
    next
      case (Some location)
      define rr where "rr = (if \<not> isEmpty location then location
                            else newRange (line (start location)) 0 (lineCount document) 0)"
      obtain r1 where r1: "findSymbolInContent host symbol document (getText document rr)
                             (offsetAt document (start rr)) = Inr r1"
        using f by blast
      show ?thesis
        using \<open>hintLocation = Some loc\<close> Some r0 r1
        by (cases r1) (simp_all add: findInDocument_def Let_def rr_def)
    qed
  qed
qed

lemma lookupSymbol_resolves:
  assumes "\<forall>u p e. executeDefinitionProvider host u p \<noteq> Inl e"
  shows "\<exists>r. lookupSymbol host symbol hints = Inr r"
proof -
  have "\<exists>r. hintLoop host symbol hs = Inr r" for hs
  proof (induction hs)
    case Nil
    then show ?case by simp
  next
    case (Cons h hs)
    then obtain r where r: "hintLoop host symbol hs = Inr r" by blast
    show ?case
    proof (cases "hint_filepath h")
      case None
      then show ?thesis using r by simp
    next
      case (Some fp)
      show ?thesis
      proof (cases "chatPanelFilepathToLocalUri host fp")
        case None
        then show ?thesis using Some r by simp
      next
        case u: (Some u)
        show ?thesis
        proof (cases "openTextDocument host u")
          case (Inl e)
          then show ?thesis using Some u r by simp
        next
          case (Inr document)
          obtain q where q: "findInDocument host symbol document (hint_location h) = Inr q"
            using findInDocument_resolves[OF assms] by blast
          show ?thesis using Some u Inr q r by (cases q) simp_all
        qed
      qed
    qed
  qed
  then show ?thesis by (simp add: lookupSymbol_def)
qed

text \<open>
  C9. \<open>lookupSymbol\<close> returns \<open>null\<close> for a name that is no identifier
  (\<open>lookupSymbol_invalid_name\<close>), skips a hint without file path, with a file path
  that does not resolve, or with a document that fails to open (\<open>hintLoop_skips\<close>),
  and returns normally whenever the definition provider resolves
  (\<open>lookupSymbol_resolves\<close>). The query of the definition provider is awaited
  outside any \<open>try\<close>: when it rejects, \<open>lookupSymbol\<close> rejects too.
\<close>

theorem lookupSymbol_propagates_provider_rejection:
  "lookupSymbol (lookupHost True) ''x'' (Some [hintAtLine ''f.ts'' 0]) = Inl Rejected"
  by code_simp

end
